theory Spec2Isabelle
  imports Main "HOL-Library.Word" "HOL-Library.Sublist"
begin

unbundle bit_operations_syntax

section \<open>Data model\<close>

text \<open>
  The storage engine of trivy-java-db (\<^verbatim>\<open>pkg/db\<close>) keeps two tables,
  \<^verbatim>\<open>artifacts(id, group_id, artifact_id)\<close> and
  \<^verbatim>\<open>indices(artifact_id, version, sha1, archive_type)\<close>, and talks to them through SQL
  statements. The statements are embedded as functions on the contents of the two tables;
  rows are kept in insertion order. Go strings are byte sequences, as \<^typ>\<open>string\<close> is.
\<close>

type_synonym byte = "8 word"

text \<open>
  Modelled from the spec: \<^verbatim>\<open>types.Index\<close> and \<^verbatim>\<open>types.ArchiveType\<close>, which
  \<^verbatim>\<open>pkg/types\<close> declares outside \<^verbatim>\<open>conf.go\<close>. The specification gives an Index the
  fields group id, artifact id, version, sha1 (a binary digest) and archive type (the packaging
  found on disk, a string such as \<^verbatim>\<open>jar\<close>); they are the five fields that
  \<^verbatim>\<open>InsertIndexes\<close> binds and \<^verbatim>\<open>Scan\<close> fills.
\<close>

record Index =
  GroupID :: string
  ArtifactID :: string
  Version :: string
  SHA1 :: "byte list"
  ArchiveType :: string

text \<open>\<^verbatim>\<open>var index types.Index\<close>: the zero value of the struct.\<close>

definition zero_Index :: Index where
  "zero_Index = \<lparr>GroupID = [], ArtifactID = [], Version = [], SHA1 = [], ArchiveType = []\<rparr>"

text \<open>A row of \<^verbatim>\<open>artifacts\<close>; the columns carry the alias \<^verbatim>\<open>a\<close> of the queries.\<close>

record artifact_row =
  a_id :: nat
  a_group_id :: string
  a_artifact_id :: string

text \<open>
  A row of \<^verbatim>\<open>indices\<close> (alias \<^verbatim>\<open>i\<close>). The foreign key column is nullable: the
  scalar subquery of the insert yields NULL when no artifact matches.
\<close>

record index_row =
  i_artifact_id :: "nat option"
  i_version :: string
  i_sha1 :: "byte list"
  i_archive_type :: string

text \<open>
  A database: the schema catalog (name, kind and defining statement of every object, as in
  \<^verbatim>\<open>sqlite_master\<close>) and the rows of the two tables. The data statements below are
  modelled on the schema that \<^verbatim>\<open>Init\<close> creates (the unique index on
  \<^verbatim>\<open>(artifact_id, group_id)\<close>, the unique index on \<^verbatim>\<open>sha1\<close>); text and blob
  values compare by equality of their bytes, and no bound value is NULL, a Go string or byte
  slice being none.

  The two backends run the same data statements but for the dialect, and one embedding
  stands for both. It is SQLite's to the letter. For MySQL it holds on the values on which
  MySQL compares as SQLite does: strings that the collation of the \<^verbatim>\<open>utf8\<close> columns
  tells apart exactly when they differ, and hashes of at most 255 bytes, the prefix that the
  unique index on \<^verbatim>\<open>sha1\<close> covers. MySQL numbers the artifacts with its own counter; no
  query returns an id.
\<close>

datatype object_kind = TableObject | IndexObject

record database =
  catalog :: "(string \<times> object_kind \<times> string) list"
  artifacts :: "artifact_row list"
  indices :: "index_row list"

definition empty_database :: database where
  "empty_database = \<lparr>catalog = [], artifacts = [], indices = []\<rparr>"

section \<open>Errors\<close>

text \<open>
  \<^verbatim>\<open>Errorf m e\<close> is \<^verbatim>\<open>xerrors.Errorf("m: %w", e)\<close>; \<^verbatim>\<open>EngineError\<close> is an error the
  SQL engine or the operating system reports; \<^verbatim>\<open>ErrLength\<close> and
  \<^verbatim>\<open>InvalidByteError\<close> are those of \<^verbatim>\<open>encoding/hex\<close>.
\<close>

datatype error =
    EngineError string
  | ErrNoRows
  | ErrLength
  | InvalidByteError char
  | ErrorString string
  | Errorf string error

text \<open>\<^verbatim>\<open>errors.Is(err, sql.ErrNoRows)\<close>: follows the chain of wrapped errors.\<close>

fun errors_Is_ErrNoRows :: "error \<Rightarrow> bool" where
  "errors_Is_ErrNoRows ErrNoRows = True"
| "errors_Is_ErrNoRows (Errorf m e) = errors_Is_ErrNoRows e"
| "errors_Is_ErrNoRows e = False"

text \<open>
  What the environment decides is a parameter of the model: a statement may be failed by the
  engine (a lost connection, a full disk, too many bound variables). A fault is the engine's
  message, \<open>None\<close> when the statement runs.
\<close>

type_synonym fault = "string option"

section \<open>The SQL statements\<close>

text \<open>
  The row id SQLite gives a row inserted without one: one more than the largest in the table.
\<close>

definition max_id :: "artifact_row list \<Rightarrow> nat" where
  "max_id rows = foldr (\<lambda>r m. max (a_id r) m) rows 0"

definition next_id :: "artifact_row list \<Rightarrow> nat" where
  "next_id rows = Suc (max_id rows)"

text \<open>
  One value tuple of \<^verbatim>\<open>INSERT OR IGNORE INTO artifacts(group_id, artifact_id)\<close>
  (MySQL: \<^verbatim>\<open>INSERT IGNORE\<close>): a tuple that violates the unique index on
  \<^verbatim>\<open>(artifact_id, group_id)\<close> is skipped.
\<close>

definition insert_or_ignore_artifact :: "string \<times> string \<Rightarrow> artifact_row list \<Rightarrow> artifact_row list" where
  "insert_or_ignore_artifact v rows =
     (if \<exists>r \<in> set rows. a_artifact_id r = snd v \<and> a_group_id r = fst v then rows
      else rows @ [\<lparr>a_id = next_id rows, a_group_id = fst v, a_artifact_id = snd v\<rparr>])"

text \<open>The multi-row statement takes its tuples in the order they are written.\<close>

definition insert_or_ignore_artifacts :: "(string \<times> string) list \<Rightarrow> database \<Rightarrow> database" where
  "insert_or_ignore_artifacts vs db =
     db\<lparr>artifacts := fold insert_or_ignore_artifact vs (artifacts db)\<rparr>"

text \<open>
  \<^verbatim>\<open>(SELECT id FROM artifacts WHERE group_id=? AND artifact_id=?)\<close> as a scalar: the id of
  the first matching row, NULL when there is none.
\<close>

definition select_artifact_id :: "string \<Rightarrow> string \<Rightarrow> artifact_row list \<Rightarrow> nat option" where
  "select_artifact_id g a rows =
     (case filter (\<lambda>r. a_group_id r = g \<and> a_artifact_id r = a) rows of
        [] \<Rightarrow> None
      | r # _ \<Rightarrow> Some (a_id r))"

text \<open>
  \<^verbatim>\<open>INSERT INTO indices(artifact_id, version, sha1, archive_type) VALUES ((SELECT ...), ?, ?, ?)
  ON CONFLICT(sha1) DO NOTHING\<close> (MySQL: \<^verbatim>\<open>INSERT IGNORE\<close>): nothing happens when a row
  with that sha1 is there.
\<close>

definition insert_index_do_nothing :: "Index \<Rightarrow> database \<Rightarrow> database" where
  "insert_index_do_nothing index db =
     (if \<exists>r \<in> set (indices db). i_sha1 r = SHA1 index then db
      else db\<lparr>indices := indices db @
        [\<lparr>i_artifact_id = select_artifact_id (GroupID index) (ArtifactID index) (artifacts db),
          i_version = Version index,
          i_sha1 = SHA1 index,
          i_archive_type = ArchiveType index\<rparr>]\<rparr>)"

text \<open>\<^verbatim>\<open>FROM indices i JOIN artifacts a ON a.id = i.artifact_id\<close>.\<close>

definition join_indices_artifacts :: "database \<Rightarrow> (index_row \<times> artifact_row) list" where
  "join_indices_artifacts db =
     concat (map (\<lambda>i. map (Pair i) (filter (\<lambda>a. Some (a_id a) = i_artifact_id i) (artifacts db)))
       (indices db))"

text \<open>The select list \<^verbatim>\<open>a.group_id, a.artifact_id, i.version, i.sha1, i.archive_type\<close>.\<close>

definition to_Index :: "index_row \<times> artifact_row \<Rightarrow> Index" where
  "to_Index p = \<lparr>GroupID = a_group_id (snd p), ArtifactID = a_artifact_id (snd p),
     Version = i_version (fst p), SHA1 = i_sha1 (fst p), ArchiveType = i_archive_type (fst p)\<rparr>"

section \<open>Transactions\<close>

text \<open>
  A transaction works on its own copy of the tables. \<^verbatim>\<open>Commit\<close> makes the copy the
  database; \<^verbatim>\<open>Rollback\<close>, and a \<^verbatim>\<open>Commit\<close> the engine fails, leave the database as
  it was when the transaction began.
\<close>

definition Begin :: "fault \<Rightarrow> database \<Rightarrow> error + database" where
  "Begin f db = (case f of Some m \<Rightarrow> Inl (EngineError m) | None \<Rightarrow> Inr db)"

definition Exec :: "fault \<Rightarrow> (database \<Rightarrow> database) \<Rightarrow> database \<Rightarrow> error + database" where
  "Exec f stmt tx = (case f of Some m \<Rightarrow> Inl (EngineError m) | None \<Rightarrow> Inr (stmt tx))"

definition Commit :: "fault \<Rightarrow> database \<Rightarrow> error + database" where
  "Commit f tx = (case f of Some m \<Rightarrow> Inl (EngineError m) | None \<Rightarrow> Inr tx)"

section \<open>InsertIndexes\<close>

text \<open>The faults of one call: of Begin, of the artifacts statement, of each index statement
  in turn (none once the list is used up), and of Commit.\<close>

record faults =
  begin_fault :: fault
  artifacts_fault :: fault
  index_faults :: "fault list"
  commit_fault :: fault

definition no_faults :: faults where
  "no_faults = \<lparr>begin_fault = None, artifacts_fault = None, index_faults = [], commit_fault = None\<rparr>"

definition next_fault :: "fault list \<Rightarrow> fault" where
  "next_fault fs = (case fs of [] \<Rightarrow> None | f # _ \<Rightarrow> f)"

text \<open>\<^verbatim>\<open>insertArtifacts\<close>: one statement with a tuple for every index of the batch.\<close>

definition insertArtifacts :: "fault \<Rightarrow> database \<Rightarrow> Index list \<Rightarrow> error + database" where
  "insertArtifacts f tx indexes =
     (case Exec f (insert_or_ignore_artifacts (map (\<lambda>index. (GroupID index, ArtifactID index)) indexes)) tx of
        Inl err \<Rightarrow> Inl (Errorf ''unable to insert to 'artifacts' table'' err)
      | Inr tx' \<Rightarrow> Inr tx')"

text \<open>The loop \<^verbatim>\<open>for _, index := range indexes\<close> of \<^verbatim>\<open>InsertIndexes\<close>.\<close>

fun insert_loop :: "fault list \<Rightarrow> Index list \<Rightarrow> database \<Rightarrow> error + database" where
  "insert_loop fs [] tx = Inr tx"
| "insert_loop fs (index # rest) tx =
     (case Exec (next_fault fs) (insert_index_do_nothing index) tx of
        Inl err \<Rightarrow> Inl (Errorf ''unable to insert to 'indices' table'' err)
      | Inr tx' \<Rightarrow> insert_loop (tl fs) rest tx')"

text \<open>
  \<^verbatim>\<open>InsertIndexes\<close> returns the error (\<open>None\<close> for nil) and the database after the call.
  Every return after \<^verbatim>\<open>Begin\<close> runs the deferred \<^verbatim>\<open>tx.Rollback()\<close>: but for the one
  after a successful \<^verbatim>\<open>Commit\<close>, the database is the one the call found.
\<close>

definition InsertIndexes :: "faults \<Rightarrow> Index list \<Rightarrow> database \<Rightarrow> error option \<times> database" where
  "InsertIndexes f indexes db =
     (if length indexes = 0 then (None, db)
      else case Begin (begin_fault f) db of
        Inl err \<Rightarrow> (Some err, db)
      | Inr tx \<Rightarrow>
         (case insertArtifacts (artifacts_fault f) tx indexes of
            Inl err \<Rightarrow> (Some (Errorf ''insert error'' err), db)
          | Inr tx1 \<Rightarrow>
             (case insert_loop (index_faults f) indexes tx1 of
                Inl err \<Rightarrow> (Some err, db)
              | Inr tx2 \<Rightarrow>
                 (case Commit (commit_fault f) tx2 of
                    Inl err \<Rightarrow> (Some err, db)
                  | Inr db' \<Rightarrow> (None, db')))))"

section \<open>The queries\<close>

text \<open>
  \<^verbatim>\<open>encoding/hex\<close>: \<^verbatim>\<open>reverseHexTable\<close> maps a hexadecimal digit of either case to
  its value and every other byte to \<^verbatim>\<open>0xff\<close>.
\<close>

definition reverseHexTable :: "char \<Rightarrow> byte" where
  "reverseHexTable c =
     (let n = (of_char c :: nat) in
      if 48 \<le> n \<and> n \<le> 57 then of_nat (n - 48)
      else if 97 \<le> n \<and> n \<le> 102 then of_nat (n - 97 + 10)
      else if 65 \<le> n \<and> n \<le> 70 then of_nat (n - 65 + 10)
      else 0xff)"

text \<open>
  \<^verbatim>\<open>hex.DecodeString\<close>: two digits a byte; the first byte that is no digit is reported,
  and an odd length after that.
\<close>

fun hex_DecodeString :: "string \<Rightarrow> error + byte list" where
  "hex_DecodeString [] = Inr []"
| "hex_DecodeString [p] =
     (if reverseHexTable p > 0x0f then Inl (InvalidByteError p) else Inl ErrLength)"
| "hex_DecodeString (p # q # src) =
     (let a = reverseHexTable p; b = reverseHexTable q in
      if a > 0x0f then Inl (InvalidByteError p)
      else if b > 0x0f then Inl (InvalidByteError q)
      else case hex_DecodeString src of
             Inl err \<Rightarrow> Inl err
           | Inr dst \<Rightarrow> Inr ((push_bit 4 a OR b) # dst))"

text \<open>
  \<^verbatim>\<open>QueryRow(...).Scan(...)\<close>: the engine's error, \<^verbatim>\<open>sql.ErrNoRows\<close> for an empty
  result, the first row otherwise.
\<close>

definition QueryRow_Scan :: "fault \<Rightarrow> Index list \<Rightarrow> error + Index" where
  "QueryRow_Scan f rows =
     (case f of
        Some m \<Rightarrow> Inl (EngineError m)
      | None \<Rightarrow> (case rows of [] \<Rightarrow> Inl ErrNoRows | r # _ \<Rightarrow> Inr r))"

text \<open>\<^verbatim>\<open>... WHERE i.sha1 = ?\<close>\<close>

definition query_by_sha1 :: "byte list \<Rightarrow> database \<Rightarrow> Index list" where
  "query_by_sha1 sha1b db =
     map to_Index (filter (\<lambda>(i, a). i_sha1 i = sha1b) (join_indices_artifacts db))"

text \<open>\<^verbatim>\<open>... WHERE a.group_id = ? AND a.artifact_id = ?\<close>\<close>

definition query_by_artifact_group :: "string \<Rightarrow> string \<Rightarrow> database \<Rightarrow> Index list" where
  "query_by_artifact_group groupID artifactID db =
     map to_Index (filter (\<lambda>(i, a). a_group_id a = groupID \<and> a_artifact_id a = artifactID)
       (join_indices_artifacts db))"

text \<open>
  The subquery \<^verbatim>\<open>f_id\<close>: \<^verbatim>\<open>SELECT a.id, a.group_id, a.artifact_id FROM indices i JOIN
  artifacts a on a.id = i.artifact_id WHERE a.artifact_id = ? AND i.version = ? AND
  i.archive_type = ?\<close>, one artifact row for every index row that matches.
\<close>

definition f_id :: "string \<Rightarrow> string \<Rightarrow> string \<Rightarrow> database \<Rightarrow> artifact_row list" where
  "f_id artifactID version fileType db =
     map snd (filter (\<lambda>(i, a). a_artifact_id a = artifactID \<and> i_version i = version \<and>
                               i_archive_type i = fileType)
       (join_indices_artifacts db))"

text \<open>\<^verbatim>\<open>FROM indices i JOIN (...) f_id ON f_id.id = i.artifact_id\<close>\<close>

definition query_by_artifact_file_type :: "string \<Rightarrow> string \<Rightarrow> string \<Rightarrow> database \<Rightarrow> Index list" where
  "query_by_artifact_file_type artifactID version fileType db =
     concat (map (\<lambda>i. map (\<lambda>f. to_Index (i, f))
                    (filter (\<lambda>f. Some (a_id f) = i_artifact_id i) (f_id artifactID version fileType db)))
       (indices db))"

text \<open>
  The three queries return their result and the database, which no statement of theirs
  writes. The fault is the one of the single statement each runs.
\<close>

definition SelectIndexBySha1 :: "fault \<Rightarrow> string \<Rightarrow> database \<Rightarrow> (error + Index) \<times> database" where
  "SelectIndexBySha1 f sha1 db =
     (case hex_DecodeString sha1 of
        Inl err \<Rightarrow> (Inl (Errorf ''sha1 decode error'' err), db)
      | Inr sha1b \<Rightarrow>
         (case QueryRow_Scan f (query_by_sha1 sha1b db) of
            Inl err \<Rightarrow>
              (if \<not> errors_Is_ErrNoRows err then (Inl (Errorf ''select index error'' err), db)
               else (Inr zero_Index, db))
          | Inr index \<Rightarrow> (Inr index, db)))"

definition SelectIndexByArtifactIDAndGroupID ::
    "fault \<Rightarrow> string \<Rightarrow> string \<Rightarrow> database \<Rightarrow> (error + Index) \<times> database" where
  "SelectIndexByArtifactIDAndGroupID f artifactID groupID db =
     (case QueryRow_Scan f (query_by_artifact_group groupID artifactID db) of
        Inl err \<Rightarrow>
          (if \<not> errors_Is_ErrNoRows err then (Inl (Errorf ''select index error'' err), db)
           else (Inr zero_Index, db))
      | Inr index \<Rightarrow> (Inr index, db))"

text \<open>
  \<^verbatim>\<open>Query\<close> reports the engine's error or hands over the rows; the loop over
  \<^verbatim>\<open>rows.Next()\<close> appends every row. An error of the engine is never
  \<^verbatim>\<open>sql.ErrNoRows\<close>, so it passes the test of \<^verbatim>\<open>errors.Is\<close> and is returned; no
  column is NULL, so \<^verbatim>\<open>rows.Scan\<close> succeeds.
\<close>

definition SelectIndexesByArtifactIDAndFileType ::
    "fault \<Rightarrow> string \<Rightarrow> string \<Rightarrow> string \<Rightarrow> database \<Rightarrow> (error + Index list) \<times> database" where
  "SelectIndexesByArtifactIDAndFileType f artifactID version fileType db =
     (case f of
        Some m \<Rightarrow> (Inl (Errorf ''select indexes error'' (EngineError m)), db)
      | None \<Rightarrow> (Inr (query_by_artifact_file_type artifactID version fileType db), db))"

section \<open>Init\<close>

text \<open>A statement that the engine may fail, or that fails by itself.\<close>

definition ExecDDL :: "fault \<Rightarrow> (database \<Rightarrow> error + database) \<Rightarrow> database \<Rightarrow> error + database" where
  "ExecDDL f stmt db = (case f of Some m \<Rightarrow> Inl (EngineError m) | None \<Rightarrow> stmt db)"

definition fault_at :: "fault list \<Rightarrow> nat \<Rightarrow> fault" where
  "fault_at fs k = next_fault (drop k fs)"

definition object_names :: "database \<Rightarrow> string list" where
  "object_names db = map fst (catalog db)"

definition table_names :: "database \<Rightarrow> string list" where
  "table_names db = map fst (filter (\<lambda>(n, k, d). k = TableObject) (catalog db))"

text \<open>
  SQLite, \<^verbatim>\<open>CREATE TABLE name(...)\<close>: tables and indexes share one namespace, and a
  name that is taken is an error.
\<close>

definition sqlite_create_table :: "string \<Rightarrow> string \<Rightarrow> database \<Rightarrow> error + database" where
  "sqlite_create_table name ddl db =
     (if name \<in> set (object_names db) then Inl (EngineError (''table '' @ name @ '' already exists''))
      else Inr (db\<lparr>catalog := catalog db @ [(name, TableObject, ddl)]\<rparr>))"

text \<open>SQLite, \<^verbatim>\<open>CREATE [UNIQUE] INDEX name ON tbl(...)\<close>.\<close>

definition sqlite_create_index :: "string \<Rightarrow> string \<Rightarrow> string \<Rightarrow> database \<Rightarrow> error + database" where
  "sqlite_create_index name tbl ddl db =
     (if name \<in> set (object_names db) then Inl (EngineError (''index '' @ name @ '' already exists''))
      else if tbl \<notin> set (table_names db) then Inl (EngineError (''no such table: '' @ tbl))
      else Inr (db\<lparr>catalog := catalog db @ [(name, IndexObject, ddl)]\<rparr>))"

text \<open>
  \<^verbatim>\<open>Sqlite.Init\<close>: five statements outside any transaction; what the earlier ones created
  stays when a later one fails.
\<close>

definition Sqlite_Init :: "fault list \<Rightarrow> database \<Rightarrow> error option \<times> database" where
  "Sqlite_Init fs db =
     (case ExecDDL (fault_at fs 0) (sqlite_create_table ''artifacts''
             ''CREATE TABLE artifacts(id INTEGER PRIMARY KEY, group_id TEXT, artifact_id TEXT)'') db of
        Inl err \<Rightarrow> (Some (Errorf ''unable to create 'artifacts' table'' err), db)
      | Inr db1 \<Rightarrow>
     (case ExecDDL (fault_at fs 1) (sqlite_create_table ''indices''
             ''CREATE TABLE indices(artifact_id INTEGER, version TEXT, sha1 BLOB, archive_type TEXT, foreign key (artifact_id) references artifacts(id))'') db1 of
        Inl err \<Rightarrow> (Some (Errorf ''unable to create 'indices' table'' err), db1)
      | Inr db2 \<Rightarrow>
     (case ExecDDL (fault_at fs 2) (sqlite_create_index ''artifacts_idx'' ''artifacts''
             ''CREATE UNIQUE INDEX artifacts_idx ON artifacts(artifact_id, group_id)'') db2 of
        Inl err \<Rightarrow> (Some (Errorf ''unable to create 'artifacts_idx' index'' err), db2)
      | Inr db3 \<Rightarrow>
     (case ExecDDL (fault_at fs 3) (sqlite_create_index ''indices_artifact_idx'' ''indices''
             ''CREATE INDEX indices_artifact_idx ON indices(artifact_id)'') db3 of
        Inl err \<Rightarrow> (Some (Errorf ''unable to create 'indices_artifact_idx' index'' err), db3)
      | Inr db4 \<Rightarrow>
     (case ExecDDL (fault_at fs 4) (sqlite_create_index ''indices_sha1_idx'' ''indices''
             ''CREATE UNIQUE INDEX indices_sha1_idx ON indices(sha1)'') db4 of
        Inl err \<Rightarrow> (Some (Errorf ''unable to create 'indices_sha1_idx' index'' err), db4)
      | Inr db5 \<Rightarrow> (None, db5))))))"

text \<open>
  MySQL, \<^verbatim>\<open>CREATE TABLE IF NOT EXISTS name(...)\<close>: a table of that name, whatever its
  columns, makes the statement a no-op that succeeds. The indexes are part of the table's
  definition. A new table with a foreign key needs the table it references, with the referenced
  column indexed and of a matching type: \<open>fk_ok\<close> decides that on the definition of the
  referenced table.
\<close>

definition mysql_create_table_if_not_exists ::
    "string \<Rightarrow> string \<Rightarrow> (string \<times> (string \<Rightarrow> bool)) option \<Rightarrow> database \<Rightarrow> error + database" where
  "mysql_create_table_if_not_exists name ddl fk db =
     (if name \<in> set (table_names db) then Inr db
      else case fk of
        None \<Rightarrow> Inr (db\<lparr>catalog := catalog db @ [(name, TableObject, ddl)]\<rparr>)
      | Some (ref, fk_ok) \<Rightarrow>
         (case map_of (catalog db) ref of
            None \<Rightarrow> Inl (EngineError ''Cannot add foreign key constraint'')
          | Some (k, d) \<Rightarrow>
             (if fk_ok d then Inr (db\<lparr>catalog := catalog db @ [(name, TableObject, ddl)]\<rparr>)
              else Inl (EngineError ''Cannot add foreign key constraint''))))"

text \<open>\<^verbatim>\<open>Mysql.Init\<close>; both errors carry the same message in the source.\<close>

definition Mysql_Init :: "(string \<Rightarrow> bool) \<Rightarrow> fault list \<Rightarrow> database \<Rightarrow> error option \<times> database" where
  "Mysql_Init fk_ok fs db =
     (case ExecDDL (fault_at fs 0) (mysql_create_table_if_not_exists ''artifacts''
             ''CREATE TABLE IF NOT EXISTS artifacts(id INTEGER AUTO_INCREMENT PRIMARY KEY, group_id varchar(255), artifact_id varchar(255), CONSTRAINT artifacts_idx UNIQUE (artifact_id, group_id)) engine=InnoDB DEFAULT charset=utf8''
             None) db of
        Inl err \<Rightarrow> (Some (Errorf ''failed to create 'artifacts' table'' err), db)
      | Inr db1 \<Rightarrow>
     (case ExecDDL (fault_at fs 1) (mysql_create_table_if_not_exists ''indices''
             ''CREATE TABLE IF NOT EXISTS indices(artifact_id INTEGER, version varchar(255), sha1 blob, archive_type varchar(255), foreign key (artifact_id) references artifacts(id), CONSTRAINT indices_sha1_idx UNIQUE (sha1(255)), INDEX indices_artifact_idx(artifact_id))engine=InnoDB DEFAULT charset=utf8''
             (Some (''artifacts'', fk_ok))) db1 of
        Inl err \<Rightarrow> (Some (Errorf ''failed to create 'artifacts' table'' err), db1)
      | Inr db2 \<Rightarrow> (None, db2)))"

section \<open>The build command\<close>

text \<open>
  Paths are cleaned absolute paths, kept as the list of their components, so that
  \<^verbatim>\<open>filepath.Join\<close> appends a component and \<^verbatim>\<open>filepath.Dir\<close> drops the last one.
  The world a build runs in: the files (a directory, or an SQLite database file with its
  content) and the MySQL servers by connect URL.
\<close>

type_synonym path = "string list"

datatype node = Dir | File database

record world =
  files :: "path \<Rightarrow> node option"
  servers :: "string \<Rightarrow> database option"

definition filepath_Join :: "path \<Rightarrow> string \<Rightarrow> path" where
  "filepath_Join dir name = dir @ [name]"

definition filepath_Dir :: "path \<Rightarrow> path" where
  "filepath_Dir p = butlast p"

definition dbFileName :: string where
  "dbFileName = ''trivy-java.db''"

definition path :: "path \<Rightarrow> path" where
  "path cacheDir = filepath_Join cacheDir dbFileName"

text \<open>\<^verbatim>\<open>os.RemoveAll\<close>: the path and all below it; a path that is not there is no error.\<close>

definition os_RemoveAll :: "fault \<Rightarrow> path \<Rightarrow> world \<Rightarrow> error option \<times> world" where
  "os_RemoveAll f p w =
     (case f of
        Some m \<Rightarrow> (Some (EngineError m), w)
      | None \<Rightarrow> (None, w\<lparr>files := (\<lambda>q. if prefix p q then None else files w q)\<rparr>))"

definition is_file :: "node option \<Rightarrow> bool" where
  "is_file n = (case n of Some (File db) \<Rightarrow> True | _ \<Rightarrow> False)"

text \<open>\<^verbatim>\<open>os.MkdirAll\<close>: the directory and its missing parents; an error when a file is in the way.\<close>

definition os_MkdirAll :: "fault \<Rightarrow> path \<Rightarrow> world \<Rightarrow> error option \<times> world" where
  "os_MkdirAll f d w =
     (case f of
        Some m \<Rightarrow> (Some (EngineError m), w)
      | None \<Rightarrow>
         (if \<exists>q \<in> set (prefixes d). is_file (files w q) then (Some (EngineError ''not a directory''), w)
          else (None, w\<lparr>files := (\<lambda>q. if prefix q d then Some Dir else files w q)\<rparr>)))"

definition Reset :: "fault \<Rightarrow> path \<Rightarrow> world \<Rightarrow> error option \<times> world" where
  "Reset f cacheDir w = os_RemoveAll f (path cacheDir) w"

text \<open>The two implementations of the interface \<^verbatim>\<open>DB\<close>, each with what it connects to.\<close>

datatype DB = Sqlite path | Mysql string

text \<open>\<^verbatim>\<open>types.DBConfig\<close>: two pointers, nil or a struct with one field.\<close>

record DBConfig =
  SqliteDBConfig :: "path option"
  MysqlDBConfig :: "string option"

text \<open>
  \<^verbatim>\<open>NewSqlite\<close>: \<^verbatim>\<open>sql.Open\<close> touches nothing; the \<^verbatim>\<open>PRAGMA\<close> statement opens the
  file and creates an empty database when there is none and its directory exists.
\<close>

definition NewSqlite :: "fault \<Rightarrow> path \<Rightarrow> world \<Rightarrow> (error + DB) \<times> world" where
  "NewSqlite f dbPath w =
     (case f of
        Some m \<Rightarrow> (Inl (Errorf ''failed to enable foreign_keys'' (EngineError m)), w)
      | None \<Rightarrow>
         (case files w dbPath of
            Some (File db) \<Rightarrow> (Inr (Sqlite dbPath), w)
          | Some Dir \<Rightarrow>
              (Inl (Errorf ''failed to enable foreign_keys'' (EngineError ''unable to open database file'')), w)
          | None \<Rightarrow>
              (if files w (filepath_Dir dbPath) = Some Dir
               then (Inr (Sqlite dbPath), w\<lparr>files := (files w)(dbPath := Some (File empty_database))\<rparr>)
               else (Inl (Errorf ''failed to enable foreign_keys'' (EngineError ''unable to open database file'')), w))))"

text \<open>\<^verbatim>\<open>NewMysql\<close>: \<^verbatim>\<open>sql.Open\<close> reads the URL and connects to nothing yet.\<close>

definition NewMysql :: "fault \<Rightarrow> string \<Rightarrow> world \<Rightarrow> (error + DB) \<times> world" where
  "NewMysql f dbConnectURL w =
     (case f of
        Some m \<Rightarrow> (Inl (Errorf (''can't open '' @ dbConnectURL @ '' db'') (EngineError m)), w)
      | None \<Rightarrow> (Inr (Mysql dbConnectURL), w))"

text \<open>The faults of one build: of the removal, of the mkdir, of the open, and of the statements of Init.\<close>

record build_faults =
  reset_fault :: fault
  mkdir_fault :: fault
  open_fault :: fault
  init_faults :: "fault list"

definition no_build_faults :: build_faults where
  "no_build_faults = \<lparr>reset_fault = None, mkdir_fault = None, open_fault = None, init_faults = []\<rparr>"

definition New :: "build_faults \<Rightarrow> path \<Rightarrow> DBConfig \<Rightarrow> world \<Rightarrow> (error + DB) \<times> world" where
  "New f cacheDir conf w =
     (let dbPath = path cacheDir; dbDir = filepath_Dir dbPath in
      case os_MkdirAll (mkdir_fault f) dbDir w of
        (Some err, w') \<Rightarrow> (Inl (Errorf ''failed to mkdir'' err), w')
      | (None, w') \<Rightarrow>
         (case SqliteDBConfig conf of
            Some DBPath \<Rightarrow> NewSqlite (open_fault f) DBPath w'
          | None \<Rightarrow>
             (case MysqlDBConfig conf of
                Some DBConnectURL \<Rightarrow> NewMysql (open_fault f) DBConnectURL w'
              | None \<Rightarrow> (Inl (ErrorString ''no db config found''), w'))))"

text \<open>\<^verbatim>\<open>dbc.Init()\<close> through the interface, on the database the handle connects to.\<close>

definition DB_Init :: "(string \<Rightarrow> bool) \<Rightarrow> fault list \<Rightarrow> DB \<Rightarrow> world \<Rightarrow> error option \<times> world" where
  "DB_Init fk_ok fs dbc w =
     (case dbc of
        Sqlite dbPath \<Rightarrow>
          (case files w dbPath of
             Some (File db) \<Rightarrow>
               (case Sqlite_Init fs db of
                  (err, db') \<Rightarrow> (err, w\<lparr>files := (files w)(dbPath := Some (File db'))\<rparr>))
           | _ \<Rightarrow> (Some (Errorf ''unable to create 'artifacts' table''
                            (EngineError ''unable to open database file'')), w))
      | Mysql url \<Rightarrow>
          (case servers w url of
             Some db \<Rightarrow>
               (case Mysql_Init fk_ok fs db of
                  (err, db') \<Rightarrow> (err, w\<lparr>servers := (servers w)(url := Some db')\<rparr>))
           | None \<Rightarrow> (Some (Errorf ''failed to create 'artifacts' table''
                               (EngineError ''connection refused'')), w)))"

text \<open>
  \<^verbatim>\<open>build\<close> of \<^verbatim>\<open>cmd/trivy-java-db/main.go\<close>. The metadata store and the builder
  (\<^verbatim>\<open>db.NewMetadata\<close>, \<^verbatim>\<open>builder.NewBuilder\<close>, \<^verbatim>\<open>Build\<close>) are not part of the sources
  at hand: \<open>Build\<close> stands for the three calls, given the handle, the metadata directory and
  the cache directory. \<open>cacheDir\<close> is the global the flag sets.
\<close>

definition build ::
    "(string \<Rightarrow> bool) \<Rightarrow> build_faults \<Rightarrow> (DB \<Rightarrow> path \<Rightarrow> path \<Rightarrow> world \<Rightarrow> error option \<times> world) \<Rightarrow>
     path \<Rightarrow> DBConfig \<Rightarrow> world \<Rightarrow> error option \<times> world" where
  "build fk_ok f Build cacheDir conf w =
     (case Reset (reset_fault f) cacheDir w of
        (Some err, w1) \<Rightarrow> (Some (Errorf ''db reset error'' err), w1)
      | (None, w1) \<Rightarrow>
         (let dbDir = filepath_Join cacheDir ''db'' in
          case New f dbDir conf w1 of
            (Inl err, w2) \<Rightarrow> (Some (Errorf ''db create error'' err), w2)
          | (Inr dbc, w2) \<Rightarrow>
             (case DB_Init fk_ok (init_faults f) dbc w2 of
                (Some err, w3) \<Rightarrow> (Some (Errorf ''db init error'' err), w3)
              | (None, w3) \<Rightarrow>
                 (case Build dbc dbDir cacheDir w3 of
                    (Some err, w4) \<Rightarrow> (Some (Errorf ''db build error'' err), w4)
                  | (None, w4) \<Rightarrow> (None, w4)))))"

section \<open>Notions the properties are stated with\<close>

text \<open>\<^verbatim>\<open>hex.EncodeToString\<close>, by which a caller writes a hash for \<^verbatim>\<open>SelectIndexBySha1\<close>.\<close>

definition hextable :: string where
  "hextable = ''0123456789abcdef''"

fun hex_EncodeToString :: "byte list \<Rightarrow> string" where
  "hex_EncodeToString [] = []"
| "hex_EncodeToString (v # src) =
     hextable ! unat (drop_bit 4 v) # hextable ! unat (v AND 0x0f) # hex_EncodeToString src"

text \<open>The key of the unique index of \<^verbatim>\<open>artifacts\<close>, as the pair of a record.\<close>

definition pair_of :: "artifact_row \<Rightarrow> string \<times> string" where
  "pair_of r = (a_group_id r, a_artifact_id r)"

text \<open>The row the insert statement writes for a record.\<close>

definition index_row_of :: "Index \<Rightarrow> artifact_row list \<Rightarrow> index_row" where
  "index_row_of x rows =
     \<lparr>i_artifact_id = select_artifact_id (GroupID x) (ArtifactID x) rows,
      i_version = Version x, i_sha1 = SHA1 x, i_archive_type = ArchiveType x\<rparr>"

text \<open>
  What the schema enforces on every database: the primary key of \<^verbatim>\<open>artifacts\<close>, its
  unique index, the unique index on \<^verbatim>\<open>sha1\<close>, and the foreign key (NULL or the id of an
  artifact).
\<close>

definition consistent :: "database \<Rightarrow> bool" where
  "consistent db \<longleftrightarrow>
     distinct (map a_id (artifacts db)) \<and>
     distinct (map pair_of (artifacts db)) \<and>
     distinct (map i_sha1 (indices db)) \<and>
     set (map i_artifact_id (indices db)) \<subseteq> insert None (Some ` a_id ` set (artifacts db))"

text \<open>All statements of a batch, run one after the other.\<close>

definition apply_batch :: "Index list \<Rightarrow> database \<Rightarrow> database" where
  "apply_batch indexes db =
     fold insert_index_do_nothing indexes
       (insert_or_ignore_artifacts (map (\<lambda>index. (GroupID index, ArtifactID index)) indexes) db)"

text \<open>The artifacts an index row joins with.\<close>

definition owners :: "index_row \<Rightarrow> artifact_row list \<Rightarrow> artifact_row list" where
  "owners i rows = filter (\<lambda>a. Some (a_id a) = i_artifact_id i) rows"

text \<open>The records a database holds, as the join of its two tables shows them.\<close>

definition stored :: "database \<Rightarrow> Index list" where
  "stored db = map to_Index (join_indices_artifacts db)"

text \<open>The records of a batch that carry a sha1 not seen before, in the batch's order.\<close>

fun new_indexes :: "byte list set \<Rightarrow> Index list \<Rightarrow> Index list" where
  "new_indexes S [] = []"
| "new_indexes S (x # xs) =
     (if SHA1 x \<in> S then new_indexes S xs else x # new_indexes (insert (SHA1 x) S) xs)"

text \<open>A sequence of calls of \<^verbatim>\<open>InsertIndexes\<close>, each with its faults and its batch.\<close>

fun run_inserts :: "(faults \<times> Index list) list \<Rightarrow> database \<Rightarrow> database" where
  "run_inserts [] db = db"
| "run_inserts ((f, indexes) # calls) db = run_inserts calls (snd (InsertIndexes f indexes db))"

text \<open>
  A valid hexadecimal encoding, in the words of the specification: an even number of
  hexadecimal digits of either case.
\<close>

definition is_hex_digit :: "char \<Rightarrow> bool" where
  "is_hex_digit c \<longleftrightarrow> c \<in> set ''0123456789abcdefABCDEF''"

definition valid_hex :: "string \<Rightarrow> bool" where
  "valid_hex s \<longleftrightarrow> even (length s) \<and> list_all is_hex_digit s"

text \<open>Concrete records, hashes of twenty bytes, and fault schedules for the examples.\<close>


definition sha_a :: "byte list" where
  "sha_a = [0x01, 0x02, 0x03, 0x04, 0x05, 0x06, 0x07, 0x08, 0x09, 0x0a,
            0x0b, 0x0c, 0x0d, 0x0e, 0x0f, 0x10, 0x11, 0x12, 0x13, 0x14]"

definition sha_b :: "byte list" where
  "sha_b = [0xa1, 0xa2, 0xa3, 0xa4, 0xa5, 0xa6, 0xa7, 0xa8, 0xa9, 0xaa,
            0xab, 0xac, 0xad, 0xae, 0xaf, 0xb0, 0xb1, 0xb2, 0xb3, 0xb4]"

definition sha_c :: "byte list" where
  "sha_c = [0xff, 0xfe, 0xfd, 0xfc, 0xfb, 0xfa, 0xf9, 0xf8, 0xf7, 0xf6,
            0xf5, 0xf4, 0xf3, 0xf2, 0xf1, 0xf0, 0xef, 0xee, 0xed, 0xec]"

definition lib_example :: Index where
  "lib_example = \<lparr>GroupID = ''org.example'', ArtifactID = ''lib'', Version = ''1.0'',
                   SHA1 = sha_a, ArchiveType = ''jar''\<rparr>"

definition lib_other :: Index where
  "lib_other = \<lparr>GroupID = ''org.other'', ArtifactID = ''lib'', Version = ''1.0'',
                 SHA1 = sha_b, ArchiveType = ''jar''\<rparr>"

definition lib_example_2 :: Index where
  "lib_example_2 = \<lparr>GroupID = ''org.example'', ArtifactID = ''lib'', Version = ''2.0'',
                     SHA1 = sha_c, ArchiveType = ''jar''\<rparr>"

definition clash :: Index where
  "clash = \<lparr>GroupID = ''org.other'', ArtifactID = ''clash'', Version = ''9.9'',
             SHA1 = sha_a, ArchiveType = ''war''\<rparr>"

definition commit_fails :: faults where
  "commit_fails = no_faults\<lparr>commit_fault := Some ''disk full''\<rparr>"

definition second_index_fails :: faults where
  "second_index_fails = no_faults\<lparr>index_faults := [None, Some ''disk full'']\<rparr>"

text \<open>
  A target whose two tables exist with other columns; the database a build left behind, and
  the world in which it lies at the path given by \<^verbatim>\<open>--db-path\<close>, the cache directory
  being \<^verbatim>\<open>/c\<close>.
\<close>

definition conflicting_database :: database where
  "conflicting_database =
     \<lparr>catalog = [(''artifacts'', TableObject, ''CREATE TABLE artifacts(x INT)''),
                 (''indices'', TableObject, ''CREATE TABLE indices(y INT)'')],
      artifacts = [], indices = []\<rparr>"

definition previous_database :: database where
  "previous_database = snd (InsertIndexes no_faults [lib_example] (snd (Sqlite_Init [] empty_database)))"

definition previous_world :: world where
  "previous_world =
     \<lparr>files = [[] \<mapsto> Dir, [''c''] \<mapsto> Dir, [''c'', ''db''] \<mapsto> Dir,
               [''c'', ''db'', ''trivy-java.db''] \<mapsto> File previous_database],
      servers = Map.empty\<rparr>"

definition sqlite_conf :: DBConfig where
  "sqlite_conf = \<lparr>SqliteDBConfig = Some [''c'', ''db'', ''trivy-java.db''], MysqlDBConfig = None\<rparr>"

lemmas example_defs = sha_a_def sha_b_def sha_c_def lib_example_def lib_other_def lib_example_2_def
  clash_def commit_fails_def second_index_fails_def

text \<open>The definitions a concrete run unfolds.\<close>

lemmas engine_defs =
  InsertIndexes_def no_faults_def Begin_def Commit_def Exec_def insertArtifacts_def next_fault_def
  insert_or_ignore_artifacts_def insert_or_ignore_artifact_def insert_index_do_nothing_def
  select_artifact_id_def next_id_def max_id_def empty_database_def
  QueryRow_Scan_def query_by_sha1_def query_by_artifact_group_def f_id_def
  query_by_artifact_file_type_def join_indices_artifacts_def to_Index_def zero_Index_def
  SelectIndexBySha1_def SelectIndexByArtifactIDAndGroupID_def
  SelectIndexesByArtifactIDAndFileType_def reverseHexTable_def hextable_def

lemmas init_defs= Sqlite_Init_def Mysql_Init_def ExecDDL_def fault_at_def next_fault_def
  sqlite_create_table_def sqlite_create_index_def mysql_create_table_if_not_exists_def
  object_names_def table_names_def empty_database_def

lemmas build_defs = build_def Reset_def os_RemoveAll_def path_def filepath_Join_def filepath_Dir_def
  dbFileName_def New_def os_MkdirAll_def is_file_def NewSqlite_def NewMysql_def DB_Init_def
  no_build_faults_def Let_def

section \<open>Properties of the statements\<close>



lemma insert_loop_Inr: "insert_loop fs B tx = Inr tx' \<Longrightarrow> tx' = fold insert_index_do_nothing B tx"
  by (induction B arbitrary: fs tx) (auto simp: Exec_def split: option.splits sum.splits)

lemma insert_loop_no_fault: "insert_loop [] B tx = Inr (fold insert_index_do_nothing B tx)"
  by (induction B arbitrary: tx) (auto simp: Exec_def next_fault_def)

lemma InsertIndexes_None:
  "InsertIndexes f B db = (None, db') \<Longrightarrow> db' = apply_batch B db"
  by (auto simp: InsertIndexes_def apply_batch_def Begin_def Commit_def Exec_def insertArtifacts_def
        insert_or_ignore_artifacts_def
      split: if_splits option.splits sum.splits dest: insert_loop_Inr)

lemma InsertIndexes_Some:
  "InsertIndexes f B db = (Some e, db') \<Longrightarrow> db' = db"
  by (auto simp: InsertIndexes_def Begin_def Commit_def Exec_def insertArtifacts_def
      split: if_splits option.splits sum.splits)

lemma InsertIndexes_no_faults:
  "InsertIndexes no_faults B db = (None, apply_batch B db)"
  by (auto simp: InsertIndexes_def apply_batch_def Begin_def Commit_def Exec_def insertArtifacts_def
        insert_or_ignore_artifacts_def no_faults_def insert_loop_no_fault)



lemma a_id_le_max_id: "r \<in> set rows \<Longrightarrow> a_id r \<le> max_id rows"
  unfolding max_id_def by (induction rows) auto

lemma next_id_fresh: "next_id rows \<notin> a_id ` set rows"
  using a_id_le_max_id by (fastforce simp: next_id_def)

lemma max_id_append: "max_id (xs @ ys) = max (max_id xs) (max_id ys)"
  unfolding max_id_def by (induction xs) auto

text \<open>one tuple of the artifacts statement\<close>

lemma ioi_cases:
  "insert_or_ignore_artifact v rows = rows \<and> v \<in> pair_of ` set rows \<or>
   insert_or_ignore_artifact v rows = rows @ [\<lparr>a_id = next_id rows, a_group_id = fst v, a_artifact_id = snd v\<rparr>]
     \<and> v \<notin> pair_of ` set rows"
  by (cases v) (auto simp: insert_or_ignore_artifact_def pair_of_def image_iff)

lemma ioi_pairs: "pair_of ` set (insert_or_ignore_artifact v rows) = insert v (pair_of ` set rows)"
  using ioi_cases [of v rows] by (auto simp: pair_of_def)

lemma ioi_distinct_pairs:
  "distinct (map pair_of rows) \<Longrightarrow> distinct (map pair_of (insert_or_ignore_artifact v rows))"
  using ioi_cases [of v rows] by (auto simp: pair_of_def)

lemma ioi_distinct_ids:
  "distinct (map a_id rows) \<Longrightarrow> distinct (map a_id (insert_or_ignore_artifact v rows))"
  using ioi_cases [of v rows] next_id_fresh [of rows] by auto

text \<open>the rows a statement adds: after the old ones, with larger ids\<close>

lemma ioi_extends:
  "\<exists>new. insert_or_ignore_artifact v rows = rows @ new \<and> (\<forall>r \<in> set new. max_id rows < a_id r)"
  using ioi_cases [of v rows] by (auto simp: next_id_def)

lemma fold_ioi_extends:
  "\<exists>new. fold insert_or_ignore_artifact vs rows = rows @ new \<and> (\<forall>r \<in> set new. max_id rows < a_id r)"
proof (induction vs arbitrary: rows)
  case Nil
  then show ?case by simp
next
  case (Cons v vs)
  obtain n1 where n1: "insert_or_ignore_artifact v rows = rows @ n1" "\<forall>r \<in> set n1. max_id rows < a_id r"
    using ioi_extends by blast
  obtain n2 where n2: "fold insert_or_ignore_artifact vs (rows @ n1) = (rows @ n1) @ n2"
      "\<forall>r \<in> set n2. max_id (rows @ n1) < a_id r"
    using Cons.IH [of "rows @ n1"] by blast
  have "\<forall>r \<in> set (n1 @ n2). max_id rows < a_id r"
    using n1(2) n2(2) by (auto simp: max_id_append)
  then show ?case using n1(1) n2(1) by (intro exI [of _ "n1 @ n2"]) simp
qed

lemma fold_ioi_pairs:
  "pair_of ` set (fold insert_or_ignore_artifact vs rows) = set vs \<union> pair_of ` set rows"
  by (induction vs arbitrary: rows) (auto simp: ioi_pairs)

lemma fold_ioi_distinct_pairs:
  "distinct (map pair_of rows) \<Longrightarrow> distinct (map pair_of (fold insert_or_ignore_artifact vs rows))"
  by (induction vs arbitrary: rows) (auto simp: ioi_distinct_pairs)

lemma fold_ioi_distinct_ids:
  "distinct (map a_id rows) \<Longrightarrow> distinct (map a_id (fold insert_or_ignore_artifact vs rows))"
  by (induction vs arbitrary: rows) (auto simp: ioi_distinct_ids)

lemma fold_ioi_noop:
  "set vs \<subseteq> pair_of ` set rows \<Longrightarrow> fold insert_or_ignore_artifact vs rows = rows"
proof (induction vs)
  case Nil then show ?case by simp
next
  case (Cons v vs)
  then have "insert_or_ignore_artifact v rows = rows" using ioi_cases [of v rows] by auto
  with Cons show ?case by simp
qed



lemma sha1_present_iff: "(\<exists>r \<in> set rows. i_sha1 r = h) \<longleftrightarrow> h \<in> i_sha1 ` set rows"
  by force

lemma iidn_cases:
  "insert_index_do_nothing x db = db \<and> SHA1 x \<in> i_sha1 ` set (indices db) \<or>
   insert_index_do_nothing x db = db\<lparr>indices := indices db @ [index_row_of x (artifacts db)]\<rparr>
     \<and> SHA1 x \<notin> i_sha1 ` set (indices db)"
  unfolding insert_index_do_nothing_def index_row_of_def sha1_present_iff by simp

lemma iidn_artifacts [simp]: "artifacts (insert_index_do_nothing x db) = artifacts db"
  using iidn_cases [of x db] by auto

lemma iidn_catalog [simp]: "catalog (insert_index_do_nothing x db) = catalog db"
  using iidn_cases [of x db] by auto

lemma fold_iidn_artifacts [simp]: "artifacts (fold insert_index_do_nothing B db) = artifacts db"
  by (induction B arbitrary: db) auto

lemma fold_iidn_catalog [simp]: "catalog (fold insert_index_do_nothing B db) = catalog db"
  by (induction B arbitrary: db) auto

lemma i_sha1_index_row_of [simp]: "i_sha1 (index_row_of x rows) = SHA1 x"
  by (simp add: index_row_of_def)

lemma iidn_sha1s:
  "i_sha1 ` set (indices (insert_index_do_nothing x db)) = insert (SHA1 x) (i_sha1 ` set (indices db))"
  using iidn_cases [of x db] by auto

lemma fold_iidn_sha1s:
  "i_sha1 ` set (indices (fold insert_index_do_nothing B db)) = SHA1 ` set B \<union> i_sha1 ` set (indices db)"
  by (induction B arbitrary: db) (auto simp: iidn_sha1s)

lemma iidn_distinct:
  "distinct (map i_sha1 (indices db)) \<Longrightarrow> distinct (map i_sha1 (indices (insert_index_do_nothing x db)))"
  using iidn_cases [of x db] by auto

lemma fold_iidn_distinct:
  "distinct (map i_sha1 (indices db)) \<Longrightarrow> distinct (map i_sha1 (indices (fold insert_index_do_nothing B db)))"
  by (induction B arbitrary: db) (auto simp: iidn_distinct)

lemma fold_iidn_noop:
  "SHA1 ` set B \<subseteq> i_sha1 ` set (indices db) \<Longrightarrow> fold insert_index_do_nothing B db = db"
proof (induction B)
  case Nil then show ?case by simp
next
  case (Cons x B)
  then have "insert_index_do_nothing x db = db" using iidn_cases [of x db] by auto
  with Cons show ?case by simp
qed

text \<open>the rows with one sha1\<close>

lemma fold_iidn_filter_present:
  "h \<in> i_sha1 ` set (indices db) \<Longrightarrow>
   filter (\<lambda>r. i_sha1 r = h) (indices (fold insert_index_do_nothing B db)) =
   filter (\<lambda>r. i_sha1 r = h) (indices db)"
proof (induction B arbitrary: db)
  case Nil then show ?case by simp
next
  case (Cons x B)
  have 1: "h \<in> i_sha1 ` set (indices (insert_index_do_nothing x db))"
    using Cons.prems by (simp add: iidn_sha1s)
  have 2: "filter (\<lambda>r. i_sha1 r = h) (indices (insert_index_do_nothing x db)) =
           filter (\<lambda>r. i_sha1 r = h) (indices db)"
    using iidn_cases [of x db] Cons.prems by auto
  show ?case using Cons.IH [OF 1] 2 by simp
qed

lemma fold_iidn_filter_fresh:
  "h \<notin> i_sha1 ` set (indices db) \<Longrightarrow>
   filter (\<lambda>r. i_sha1 r = h) (indices (fold insert_index_do_nothing B db)) =
   (case find (\<lambda>x. SHA1 x = h) B of None \<Rightarrow> [] | Some x \<Rightarrow> [index_row_of x (artifacts db)])"
proof (induction B arbitrary: db)
  case Nil then show ?case by (auto simp: filter_empty_conv)
next
  case (Cons x B)
  show ?case
  proof (cases "SHA1 x = h")
    case True
    then have eq: "insert_index_do_nothing x db = db\<lparr>indices := indices db @ [index_row_of x (artifacts db)]\<rparr>"
      using iidn_cases [of x db] Cons.prems by auto
    have "h \<in> i_sha1 ` set (indices (insert_index_do_nothing x db))"
      using True by (simp add: iidn_sha1s)
    from fold_iidn_filter_present [OF this, of B]
    have "filter (\<lambda>r. i_sha1 r = h) (indices (fold insert_index_do_nothing B (insert_index_do_nothing x db))) =
          filter (\<lambda>r. i_sha1 r = h) (indices db) @ [index_row_of x (artifacts db)]"
      using True by (simp add: eq)
    moreover have "filter (\<lambda>r. i_sha1 r = h) (indices db) = []"
      using Cons.prems unfolding filter_empty_conv by force
    ultimately show ?thesis using True by simp
  next
    case False
    then have "h \<notin> i_sha1 ` set (indices (insert_index_do_nothing x db))"
      using Cons.prems by (simp add: iidn_sha1s)
    from Cons.IH [OF this] show ?thesis using False by (simp cong: option.case_cong)
  qed
qed

text \<open>the foreign key\<close>

lemma select_artifact_id_Some:
  "(g, a) \<in> pair_of ` set rows \<Longrightarrow>
   \<exists>r \<in> set rows. pair_of r = (g, a) \<and> select_artifact_id g a rows = Some (a_id r)"
proof -
  assume "(g, a) \<in> pair_of ` set rows"
  then have "filter (\<lambda>r. a_group_id r = g \<and> a_artifact_id r = a) rows \<noteq> []"
    by (auto simp: filter_empty_conv pair_of_def)
  then obtain r rs where f: "filter (\<lambda>r. a_group_id r = g \<and> a_artifact_id r = a) rows = r # rs"
    by (cases "filter (\<lambda>r. a_group_id r = g \<and> a_artifact_id r = a) rows") auto
  then have "r \<in> set (filter (\<lambda>r. a_group_id r = g \<and> a_artifact_id r = a) rows)" by simp
  then have "r \<in> set rows" "pair_of r = (g, a)" by (auto simp: pair_of_def)
  then show ?thesis using f by (auto simp: select_artifact_id_def)
qed

lemma iidn_fk:
  assumes "set (map i_artifact_id (indices db)) \<subseteq> insert None (Some ` a_id ` set (artifacts db))"
      and "(GroupID x, ArtifactID x) \<in> pair_of ` set (artifacts db)"
  shows "set (map i_artifact_id (indices (insert_index_do_nothing x db))) \<subseteq> insert None (Some ` a_id ` set (artifacts db))"
proof -
  obtain r where r: "r \<in> set (artifacts db)" "select_artifact_id (GroupID x) (ArtifactID x) (artifacts db) = Some (a_id r)"
    using select_artifact_id_Some [OF assms(2)] by blast
  have "i_artifact_id (index_row_of x (artifacts db)) \<in> Some ` a_id ` set (artifacts db)"
    using r by (simp add: index_row_of_def)
  then show ?thesis
    using iidn_cases [of x db] assms(1) by (elim disjE conjE) simp_all
qed

lemma fold_iidn_fk:
  assumes "set (map i_artifact_id (indices db)) \<subseteq> insert None (Some ` a_id ` set (artifacts db))"
      and "(\<lambda>x. (GroupID x, ArtifactID x)) ` set B \<subseteq> pair_of ` set (artifacts db)"
  shows "set (map i_artifact_id (indices (fold insert_index_do_nothing B db))) \<subseteq> insert None (Some ` a_id ` set (artifacts db))"
  using assms
proof (induction B arbitrary: db)
  case Nil then show ?case by simp
next
  case (Cons x B)
  have "set (map i_artifact_id (indices (insert_index_do_nothing x db))) \<subseteq> insert None (Some ` a_id ` set (artifacts (insert_index_do_nothing x db)))"
    using iidn_fk [of db x] Cons.prems by auto
  from Cons.IH [OF this] Cons.prems show ?case by simp
qed

lemma artifacts_ioia [simp]:
  "artifacts (insert_or_ignore_artifacts vs db) = fold insert_or_ignore_artifact vs (artifacts db)"
  "indices (insert_or_ignore_artifacts vs db) = indices db"
  "catalog (insert_or_ignore_artifacts vs db) = catalog db"
  by (simp_all add: insert_or_ignore_artifacts_def)

lemma artifacts_apply_batch:
  "artifacts (apply_batch B db) =
     fold insert_or_ignore_artifact (map (\<lambda>x. (GroupID x, ArtifactID x)) B) (artifacts db)"
  by (simp add: apply_batch_def)

lemma consistent_apply_batch: "consistent db \<Longrightarrow> consistent (apply_batch B db)"
proof -
  assume w: "consistent db"
  let ?vs = "map (\<lambda>x. (GroupID x, ArtifactID x)) B"
  let ?dbA = "insert_or_ignore_artifacts ?vs db"
  obtain new where new: "artifacts ?dbA = artifacts db @ new"
    using fold_ioi_extends [of ?vs "artifacts db"] by auto
  have fk: "set (map i_artifact_id (indices ?dbA)) \<subseteq> insert None (Some ` a_id ` set (artifacts ?dbA))"
    using w unfolding consistent_def by (auto simp add: new simp del: artifacts_ioia(1))
  have pr: "(\<lambda>x. (GroupID x, ArtifactID x)) ` set B \<subseteq> pair_of ` set (artifacts ?dbA)"
    by (auto simp: fold_ioi_pairs)
  show ?thesis
    unfolding consistent_def apply_batch_def
    using w fold_iidn_fk [OF fk pr] 
    by (simp add: consistent_def fold_ioi_distinct_ids fold_ioi_distinct_pairs fold_iidn_distinct)
qed

lemma consistent_InsertIndexes: "consistent db \<Longrightarrow> consistent (snd (InsertIndexes f B db))"
  by (cases "InsertIndexes f B db"; cases "fst (InsertIndexes f B db)")
     (auto dest: InsertIndexes_None InsertIndexes_Some simp: consistent_apply_batch)

lemma consistent_empty: "consistent empty_database"
  by (simp add: consistent_def empty_database_def)

lemma consistent_run_inserts: "consistent db \<Longrightarrow> consistent (run_inserts calls db)"
proof (induction calls arbitrary: db)
  case Nil then show ?case by simp
next
  case (Cons c calls)
  obtain f B where c: "c = (f, B)" by (cases c)
  show ?case using Cons.IH [OF consistent_InsertIndexes [OF Cons.prems, of f B]] by (simp add: c)
qed



lemma join_owners:
  "join_indices_artifacts db = concat (map (\<lambda>i. map (Pair i) (owners i (artifacts db))) (indices db))"
  by (simp add: join_indices_artifacts_def owners_def)

lemma indices_fold_iidn:
  "indices (fold insert_index_do_nothing B db) =
   indices db @ map (\<lambda>x. index_row_of x (artifacts db)) (new_indexes (i_sha1 ` set (indices db)) B)"
proof (induction B arbitrary: db)
  case Nil then show ?case by simp
next
  case (Cons x B)
  show ?case
    using iidn_cases [of x db] Cons.IH [of "insert_index_do_nothing x db"]
    by (elim disjE conjE) (simp_all add: insert_absorb)
qed

lemma new_indexes_subset: "set (new_indexes S B) \<subseteq> set B"
  by (induction B arbitrary: S) auto

lemma new_indexes_fresh: "x \<in> set (new_indexes S B) \<Longrightarrow> SHA1 x \<notin> S"
  by (induction B arbitrary: S) (auto split: if_splits)

lemma new_indexes_distinct: "distinct (map SHA1 (new_indexes S B))"
  by (induction B arbitrary: S) (auto dest: new_indexes_fresh)

lemma new_indexes_append:
  "new_indexes S (xs @ ys) = new_indexes S xs @ new_indexes (S \<union> SHA1 ` set xs) ys"
  by (induction xs arbitrary: S) (auto simp: insert_absorb)

lemma filter_distinct_key:
  "distinct (map f xs) \<Longrightarrow> r \<in> set xs \<Longrightarrow> filter (\<lambda>a. f a = f r) xs = [r]"
proof (induction xs)
  case Nil then show ?case by simp
next
  case (Cons x xs)
  show ?case
  proof (cases "x = r")
    case True
    have "f r \<notin> f ` set xs" using Cons.prems(1) True by simp
    then have "filter (\<lambda>a. f a = f r) xs = []"
      unfolding filter_empty_conv by (metis imageI)
    then show ?thesis using True by simp
  next
    case False
    then have "r \<in> set xs" using Cons.prems by simp
    moreover from this have "f x \<noteq> f r" using Cons.prems(1) by (metis distinct.simps(2) imageI list.simps(9) set_map)
    ultimately show ?thesis using Cons by simp
  qed
qed

text \<open>the owner of an old row is not changed by new artifacts\<close>

lemma owners_old:
  assumes "i_artifact_id i \<in> insert None (Some ` a_id ` set rows)"
      and "\<forall>r \<in> set new. max_id rows < a_id r"
  shows "owners i (rows @ new) = owners i rows"
proof -
  have "filter (\<lambda>a. Some (a_id a) = i_artifact_id i) new = []"
    unfolding filter_empty_conv
  proof
    fix a assume a: "a \<in> set new"
    show "\<not> Some (a_id a) = i_artifact_id i"
    proof
      assume e: "Some (a_id a) = i_artifact_id i"
      then obtain r where "r \<in> set rows" "a_id r = a_id a" using assms(1) by force
      then have "a_id a \<le> max_id rows" using a_id_le_max_id by metis
      then show False using assms(2) a by auto
    qed
  qed
  then show ?thesis by (simp add: owners_def)
qed

lemma owners_new:
  assumes "distinct (map a_id rows)" and "(GroupID x, ArtifactID x) \<in> pair_of ` set rows"
  shows "\<exists>r. owners (index_row_of x rows) rows = [r] \<and> pair_of r = (GroupID x, ArtifactID x)"
proof -
  obtain r where r: "r \<in> set rows" "pair_of r = (GroupID x, ArtifactID x)"
      "select_artifact_id (GroupID x) (ArtifactID x) rows = Some (a_id r)"
    using select_artifact_id_Some [OF assms(2)] by blast
  have "owners (index_row_of x rows) rows = filter (\<lambda>a. a_id a = a_id r) rows"
    by (simp add: owners_def index_row_of_def r(3))
  then show ?thesis using filter_distinct_key [OF assms(1) r(1)] r(2) by auto
qed

lemma to_Index_index_row_of:
  fixes x :: Index
  shows "pair_of r = (GroupID x, ArtifactID x) \<Longrightarrow> to_Index (index_row_of x rows, r) = x"
  by (simp add: to_Index_def index_row_of_def pair_of_def)

lemma stored_fold_iidn_new:
  fixes xs :: "Index list"
  assumes "distinct (map a_id rows)" and "(\<lambda>x. (GroupID x, ArtifactID x)) ` set xs \<subseteq> pair_of ` set rows"
  shows "map to_Index (concat (map (\<lambda>x. map (Pair (index_row_of x rows)) (owners (index_row_of x rows) rows)) xs)) = xs"
  using assms(2)
proof (induction xs)
  case Nil then show ?case by simp
next
  case (Cons x xs)
  obtain r where "owners (index_row_of x rows) rows = [r]" "pair_of r = (GroupID x, ArtifactID x)"
    using owners_new [OF assms(1), of x] Cons.prems by auto
  then show ?case using Cons by (simp add: to_Index_index_row_of)
qed

lemma stored_apply_batch:
  assumes "consistent db"
  shows "stored (apply_batch B db) = stored db @ new_indexes (i_sha1 ` set (indices db)) B"
proof -
  let ?vs = "map (\<lambda>x. (GroupID x, ArtifactID x)) B"
  let ?rows = "fold insert_or_ignore_artifact ?vs (artifacts db)"
  let ?new = "new_indexes (i_sha1 ` set (indices db)) B"
  obtain new where new: "?rows = artifacts db @ new" "\<forall>r \<in> set new. max_id (artifacts db) < a_id r"
    using fold_ioi_extends [of ?vs "artifacts db"] by blast
  have ind: "indices (apply_batch B db) = indices db @ map (\<lambda>x. index_row_of x ?rows) ?new"
    by (simp add: apply_batch_def indices_fold_iidn)
  have art: "artifacts (apply_batch B db) = ?rows"
    by (simp add: apply_batch_def)
  have old: "map (\<lambda>i. map (Pair i) (owners i ?rows)) (indices db) =
             map (\<lambda>i. map (Pair i) (owners i (artifacts db))) (indices db)"
  proof (rule map_cong [OF refl])
    fix i assume "i \<in> set (indices db)"
    then have "i_artifact_id i \<in> insert None (Some ` a_id ` set (artifacts db))"
      using assms unfolding consistent_def by auto
    then show "map (Pair i) (owners i ?rows) = map (Pair i) (owners i (artifacts db))"
      using owners_old [OF _ new(2)] by (simp add: new(1))
  qed
  have d: "distinct (map a_id ?rows)"
    using assms by (simp add: consistent_def fold_ioi_distinct_ids)
  have p: "(\<lambda>x. (GroupID x, ArtifactID x)) ` set ?new \<subseteq> pair_of ` set ?rows"
    using new_indexes_subset [of "i_sha1 ` set (indices db)" B] by (auto simp: fold_ioi_pairs)
  show ?thesis
    unfolding stored_def join_owners ind art
    by (simp add: old comp_def stored_fold_iidn_new [OF d p])
qed

lemma query_by_sha1_stored: "query_by_sha1 h db = filter (\<lambda>x. SHA1 x = h) (stored db)"
  by (simp add: query_by_sha1_def stored_def filter_map to_Index_def comp_def case_prod_unfold)

lemma query_by_artifact_group_stored:
  "query_by_artifact_group g a db = filter (\<lambda>x. GroupID x = g \<and> ArtifactID x = a) (stored db)"
  by (simp add: query_by_artifact_group_def stored_def filter_map to_Index_def comp_def case_prod_unfold)


text \<open>encoding and decoding a hash\<close>


lemma nibble_cases:
  fixes n :: byte
  assumes "n \<le> 0x0f"
  shows "n \<in> {0,1,2,3,4,5,6,7,8,9,10,11,12,13,14,15}"
proof -
  have "unat n < 16" using assms by (simp add: word_le_nat_alt)
  then have "unat n = 0 \<or> unat n = 1 \<or> unat n = 2 \<or> unat n = 3 \<or> unat n = 4 \<or> unat n = 5 \<or>
      unat n = 6 \<or> unat n = 7 \<or> unat n = 8 \<or> unat n = 9 \<or> unat n = 10 \<or> unat n = 11 \<or>
      unat n = 12 \<or> unat n = 13 \<or> unat n = 14 \<or> unat n = 15" by arith
  then have "of_nat (unat n) \<in> {0,1,2,3,4,5,6,7,8,9,10,11,12,13,14,15 :: byte}"
    by (elim disjE) simp_all
  then show ?thesis by simp
qed

lemma reverse_hextable:
  fixes n :: byte
  assumes "n \<le> 0x0f"
  shows "reverseHexTable (hextable ! unat n) = n"
  using nibble_cases [OF assms]
  by (auto simp: hextable_def reverseHexTable_def)

lemma hi_nibble_le: "drop_bit 4 (v :: byte) \<le> 0x0f"
proof -
  have "unat (drop_bit 4 v) = unat v div 16" by (simp add: unat_drop_bit_eq drop_bit_nat_def)
  moreover have "unat v < 256" using unsigned_less [of v, where ?'a = nat] by simp
  ultimately have "unat (drop_bit 4 v) < 16" by simp
  then show ?thesis by (simp add: word_le_nat_alt)
qed

lemma lo_nibble_le: "(v :: byte) AND 0x0f \<le> 0x0f"
  by (rule word_and_le1)

lemma nibbles_join: "push_bit 4 (drop_bit 4 v) OR (v AND 0x0f) = (v :: byte)"
proof (rule bit_word_eqI)
  fix k assume "k < LENGTH(8)"
  have m: "bit (0x0f :: byte) k \<longleftrightarrow> k < 4"
  proof -
    have e: "(mask 4 :: byte) = 0x0f" by (simp add: mask_eq_exp_minus_1)
    have "bit (mask 4 :: byte) k \<longleftrightarrow> k < 4"
      using \<open>k < LENGTH(8)\<close> by (simp only: bit_mask_iff) simp
    then show ?thesis unfolding e .
  qed
  have "bit (push_bit 4 (drop_bit 4 v) OR (v AND 0x0f)) k \<longleftrightarrow>
        (4 \<le> k \<and> bit v (4 + (k - 4))) \<or> (bit v k \<and> bit (0x0f :: byte) k)"
    using \<open>k < LENGTH(8)\<close> by (simp add: bit_or_iff bit_and_iff bit_push_bit_iff bit_drop_bit_eq)
  also have "\<dots> \<longleftrightarrow> bit v k"
    unfolding m by (cases "4 \<le> k") auto
  finally show "bit (push_bit 4 (drop_bit 4 v) OR (v AND 0x0f)) k \<longleftrightarrow> bit v k" .
qed

lemma hex_roundtrip: "hex_DecodeString (hex_EncodeToString bs) = Inr bs"
proof (induction bs)
  case Nil then show ?case by simp
next
  case (Cons v bs)
  have a: "reverseHexTable (hextable ! unat (drop_bit 4 v)) = drop_bit 4 v"
    by (rule reverse_hextable [OF hi_nibble_le])
  have b: "reverseHexTable (hextable ! unat (v AND 0x0f)) = v AND 0x0f"
    by (rule reverse_hextable [OF lo_nibble_le])
  have c: "\<not> drop_bit 4 v > 0x0f" "\<not> (v AND 0x0f) > 0x0f"
    using hi_nibble_le [of v] lo_nibble_le [of v] by (simp_all add: not_less)
  show ?case using Cons c by (simp add: a b nibbles_join Let_def)
qed

text \<open>the whole batch\<close>

lemma apply_batch_pairs:
  "(\<lambda>x. (GroupID x, ArtifactID x)) ` set B \<subseteq> pair_of ` set (artifacts (apply_batch B db))"
  by (auto simp: apply_batch_def fold_ioi_pairs)

lemma apply_batch_sha1s:
  "SHA1 ` set B \<subseteq> i_sha1 ` set (indices (apply_batch B db))"
  by (auto simp: apply_batch_def fold_iidn_sha1s)

lemma InsertIndexes_cases:
  "InsertIndexes f B db = (None, apply_batch B db) \<or> (\<exists>err. InsertIndexes f B db = (Some err, db))"
proof (cases "InsertIndexes f B db")
  case (Pair r db')
  then show ?thesis by (cases r) (auto dest: InsertIndexes_None InsertIndexes_Some)
qed

section \<open>The claims\<close>

text \<open>
  C5. For every non-empty batch, \<^verbatim>\<open>InsertIndexes\<close> is atomic: either it returns an
  error and the database is exactly the one it found (the transaction is rolled back), or it
  returns nil and the database is the one all statements of the batch produce, which holds an
  artifact row for every pair of the batch and an index row for every sha1 of the batch.
\<close>

theorem InsertIndexes_atomic:
  assumes "indexes \<noteq> []"
  shows "(\<exists>err. InsertIndexes f indexes db = (Some err, db)) \<or>
         (InsertIndexes f indexes db = (None, apply_batch indexes db) \<and>
          (\<lambda>x. (GroupID x, ArtifactID x)) ` set indexes \<subseteq> pair_of ` set (artifacts (apply_batch indexes db)) \<and>
          SHA1 ` set indexes \<subseteq> i_sha1 ` set (indices (apply_batch indexes db)))"
  using InsertIndexes_cases [of f indexes db] apply_batch_pairs [of indexes db]
    apply_batch_sha1s [of indexes db] by blast

theorem InsertIndexes_atomic_witness:
  "[lib_example, lib_other] \<noteq> [] \<and>
   InsertIndexes second_index_fails [lib_example, lib_other] empty_database =
     (Some (Errorf ''unable to insert to 'indices' table'' (EngineError ''disk full'')), empty_database) \<and>
   InsertIndexes commit_fails [lib_example, lib_other] empty_database =
     (Some (EngineError ''disk full''), empty_database) \<and>
   fst (InsertIndexes no_faults [lib_example, lib_other] empty_database) = None \<and>
   map i_sha1 (indices (snd (InsertIndexes no_faults [lib_example, lib_other] empty_database))) = [sha_a, sha_b]"
  using InsertIndexes_atomic [of "[lib_example, lib_other]" second_index_fails empty_database]
  by (simp add: engine_defs example_defs)

lemma apply_batch_again: "apply_batch B (apply_batch B db) = apply_batch B db"
proof -
  let ?db1 = "apply_batch B db"
  let ?vs = "map (\<lambda>x. (GroupID x, ArtifactID x)) B"
  have "set ?vs \<subseteq> pair_of ` set (artifacts ?db1)"
    using apply_batch_pairs [of B db] by simp
  then have "fold insert_or_ignore_artifact ?vs (artifacts ?db1) = artifacts ?db1"
    by (rule fold_ioi_noop)
  then have "insert_or_ignore_artifacts ?vs ?db1 = ?db1"
    by (simp add: insert_or_ignore_artifacts_def)
  then show ?thesis
    using fold_iidn_noop [OF apply_batch_sha1s [of B db]]
    by (simp add: apply_batch_def [of B ?db1])
qed

text \<open>
  C2. When a call of \<^verbatim>\<open>InsertIndexes\<close> with a batch has returned nil, a second call with
  the same batch leaves the database as the first call left it, whatever the engine does to
  the second call, and returns nil when the engine fails nothing. So each of
  \<^verbatim>\<open>SelectIndexBySha1\<close>, \<^verbatim>\<open>SelectIndexByArtifactIDAndGroupID\<close> and
  \<^verbatim>\<open>SelectIndexesByArtifactIDAndFileType\<close> answers after the second call what it
  answers after the first.
\<close>

theorem InsertIndexes_twice:
  assumes "InsertIndexes f1 indexes db = (None, db1)"
  shows "InsertIndexes no_faults indexes db1 = (None, db1) \<and>
         snd (InsertIndexes f2 indexes db1) = db1 \<and>
         SelectIndexBySha1 q sha1 (snd (InsertIndexes f2 indexes db1)) = SelectIndexBySha1 q sha1 db1 \<and>
         SelectIndexByArtifactIDAndGroupID q artifactID groupID (snd (InsertIndexes f2 indexes db1)) =
           SelectIndexByArtifactIDAndGroupID q artifactID groupID db1 \<and>
         SelectIndexesByArtifactIDAndFileType q artifactID version fileType (snd (InsertIndexes f2 indexes db1)) =
           SelectIndexesByArtifactIDAndFileType q artifactID version fileType db1"
proof -
  have db1: "db1 = apply_batch indexes db"
    using assms by (rule InsertIndexes_None)
  have again: "apply_batch indexes db1 = db1"
    unfolding db1 by (rule apply_batch_again)
  have 1: "InsertIndexes no_faults indexes db1 = (None, db1)"
    by (simp add: InsertIndexes_no_faults again)
  have 2: "snd (InsertIndexes f2 indexes db1) = db1"
    using InsertIndexes_cases [of f2 indexes db1] again by auto
  show ?thesis using 1 by (simp add: 2)
qed

theorem InsertIndexes_twice_witness:
  "InsertIndexes no_faults [lib_example, lib_other, lib_example_2] empty_database =
     (None, snd (InsertIndexes no_faults [lib_example, lib_other, lib_example_2] empty_database)) \<and>
   InsertIndexes no_faults [lib_example, lib_other, lib_example_2]
     (snd (InsertIndexes no_faults [lib_example, lib_other, lib_example_2] empty_database)) =
     (None, snd (InsertIndexes no_faults [lib_example, lib_other, lib_example_2] empty_database)) \<and>
   length (indices (snd (InsertIndexes no_faults [lib_example, lib_other, lib_example_2] empty_database))) = 3"
proof -
  have h: "InsertIndexes no_faults [lib_example, lib_other, lib_example_2] empty_database =
     (None, snd (InsertIndexes no_faults [lib_example, lib_other, lib_example_2] empty_database))"
    by (simp add: InsertIndexes_no_faults)
  have "length (indices (snd (InsertIndexes no_faults [lib_example, lib_other, lib_example_2] empty_database))) = 3"
    by (simp add: engine_defs example_defs)
  then show ?thesis using h InsertIndexes_twice [OF h] by simp
qed

text \<open>the unique index of the artifacts\<close>

lemma ioi_extends_pairs:
  "\<exists>new. insert_or_ignore_artifact v rows = rows @ new \<and> pair_of ` set new \<inter> pair_of ` set rows = {}"
  using ioi_cases [of v rows] by (auto simp: pair_of_def)

lemma fold_ioi_extends_pairs:
  "\<exists>new. fold insert_or_ignore_artifact vs rows = rows @ new \<and> pair_of ` set new \<inter> pair_of ` set rows = {}"
proof (induction vs arbitrary: rows)
  case Nil
  then show ?case by simp
next
  case (Cons v vs)
  obtain n1 where n1: "insert_or_ignore_artifact v rows = rows @ n1" "pair_of ` set n1 \<inter> pair_of ` set rows = {}"
    using ioi_extends_pairs by blast
  obtain n2 where n2: "fold insert_or_ignore_artifact vs (rows @ n1) = (rows @ n1) @ n2"
      "pair_of ` set n2 \<inter> pair_of ` set (rows @ n1) = {}"
    using Cons.IH [of "rows @ n1"] by blast
  have "pair_of ` set (n1 @ n2) \<inter> pair_of ` set rows = {}"
    using n1(2) n2(2) by auto
  then show ?case using n1(1) n2(1) by (intro exI [of _ "n1 @ n2"]) simp
qed

lemma filter_key_le_1: "distinct (map f xs) \<Longrightarrow> length (filter (\<lambda>x. f x = k) xs) \<le> 1"
proof (induction xs)
  case Nil then show ?case by simp
next
  case (Cons x xs)
  show ?case
  proof (cases "f x = k")
    case True
    then have "k \<notin> f ` set xs" using Cons.prems by auto
    then have "filter (\<lambda>x. f x = k) xs = []"
      unfolding filter_empty_conv by (metis imageI)
    then show ?thesis using True by simp
  next
    case False
    then show ?thesis using Cons by simp
  qed
qed

lemma distinct_pairs_InsertIndexes:
  "distinct (map pair_of (artifacts db)) \<Longrightarrow> distinct (map pair_of (artifacts (snd (InsertIndexes f B db))))"
  using InsertIndexes_cases [of f B db]
  by (auto simp: artifacts_apply_batch fold_ioi_distinct_pairs)

lemma distinct_pairs_run_inserts:
  "distinct (map pair_of (artifacts db)) \<Longrightarrow> distinct (map pair_of (artifacts (run_inserts calls db)))"
proof (induction calls arbitrary: db)
  case Nil then show ?case by simp
next
  case (Cons c calls)
  obtain f B where c: "c = (f, B)" by (cases c)
  show ?case using Cons.IH [OF distinct_pairs_InsertIndexes [OF Cons.prems, of f B]] by (simp add: c)
qed

lemma present_pair_rows_kept:
  assumes "p \<in> pair_of ` set (artifacts db)"
  shows "filter (\<lambda>r. pair_of r = p) (artifacts (snd (InsertIndexes f B db))) =
         filter (\<lambda>r. pair_of r = p) (artifacts db)"
proof -
  obtain new where new: "artifacts (apply_batch B db) = artifacts db @ new"
      "pair_of ` set new \<inter> pair_of ` set (artifacts db) = {}"
    using fold_ioi_extends_pairs [of "map (\<lambda>x. (GroupID x, ArtifactID x)) B" "artifacts db"]
    by (auto simp: artifacts_apply_batch)
  have "filter (\<lambda>r. pair_of r = p) new = []"
    unfolding filter_empty_conv using new(2) assms by (metis disjoint_iff imageI)
  then have "filter (\<lambda>r. pair_of r = p) (artifacts (apply_batch B db)) = filter (\<lambda>r. pair_of r = p) (artifacts db)"
    by (simp add: new(1))
  then show ?thesis using InsertIndexes_cases [of f B db] by auto
qed

text \<open>
  C4. From a database whose artifacts obey the unique index, after any sequence of calls of
  \<^verbatim>\<open>InsertIndexes\<close>, with any faults, the table \<^verbatim>\<open>artifacts\<close> holds at most one row for
  a pair \<open>(group_id, artifact_id)\<close>. A batch is never refused for the pairs it mentions (with
  no fault of the engine the call returns nil, whatever the batch repeats), and the rows of a
  pair that is present are the same after a call as before.
\<close>

theorem artifacts_pair_unique:
  assumes "distinct (map pair_of (artifacts db))"
  shows "length (filter (\<lambda>r. a_group_id r = g \<and> a_artifact_id r = a) (artifacts (run_inserts calls db))) \<le> 1 \<and>
         fst (InsertIndexes no_faults indexes db) = None \<and>
         ((g, a) \<in> pair_of ` set (artifacts db) \<longrightarrow>
            filter (\<lambda>r. a_group_id r = g \<and> a_artifact_id r = a) (artifacts (snd (InsertIndexes f indexes db))) =
            filter (\<lambda>r. a_group_id r = g \<and> a_artifact_id r = a) (artifacts db))"
proof -
  have e: "(\<lambda>r. a_group_id r = g \<and> a_artifact_id r = a) = (\<lambda>r. pair_of r = (g, a))"
    by (auto simp: pair_of_def)
  show ?thesis
    unfolding e
    using filter_key_le_1 [OF distinct_pairs_run_inserts [OF assms], of "(g, a)" calls]
      present_pair_rows_kept [of "(g, a)" db f indexes]
    by (simp add: InsertIndexes_no_faults)
qed

theorem artifacts_pair_unique_witness:
  "distinct (map pair_of (artifacts empty_database)) \<and>
   artifacts (run_inserts [(no_faults, [lib_example, lib_example, lib_other]),
                           (commit_fails, [clash]),
                           (no_faults, [lib_example_2, lib_other])] empty_database) =
     [\<lparr>a_id = 1, a_group_id = ''org.example'', a_artifact_id = ''lib''\<rparr>,
      \<lparr>a_id = 2, a_group_id = ''org.other'', a_artifact_id = ''lib''\<rparr>] \<and>
   length (filter (\<lambda>r. a_group_id r = ''org.example'' \<and> a_artifact_id r = ''lib'')
     (artifacts (run_inserts [(no_faults, [lib_example, lib_example, lib_other]),
                              (commit_fails, [clash]),
                              (no_faults, [lib_example_2, lib_other])] empty_database))) \<le> 1 \<and>
   distinct (map pair_of (artifacts (snd (InsertIndexes no_faults [lib_example] empty_database)))) \<and>
   (''org.example'', ''lib'') \<in> pair_of ` set (artifacts (snd (InsertIndexes no_faults [lib_example] empty_database))) \<and>
   fst (InsertIndexes no_faults [lib_example_2, lib_example_2]
         (snd (InsertIndexes no_faults [lib_example] empty_database))) = None \<and>
   filter (\<lambda>r. a_group_id r = ''org.example'' \<and> a_artifact_id r = ''lib'')
     (artifacts (snd (InsertIndexes no_faults [lib_example_2, lib_example_2]
                       (snd (InsertIndexes no_faults [lib_example] empty_database))))) =
   filter (\<lambda>r. a_group_id r = ''org.example'' \<and> a_artifact_id r = ''lib'')
     (artifacts (snd (InsertIndexes no_faults [lib_example] empty_database)))"
proof -
  have h: "distinct (map pair_of (artifacts empty_database))"
    by (simp add: empty_database_def)
  have r: "artifacts (run_inserts [(no_faults, [lib_example, lib_example, lib_other]),
                           (commit_fails, [clash]),
                           (no_faults, [lib_example_2, lib_other])] empty_database) =
     [\<lparr>a_id = 1, a_group_id = ''org.example'', a_artifact_id = ''lib''\<rparr>,
      \<lparr>a_id = 2, a_group_id = ''org.other'', a_artifact_id = ''lib''\<rparr>]"
    by (simp add: engine_defs example_defs)
  have a1: "artifacts (snd (InsertIndexes no_faults [lib_example] empty_database)) =
     [\<lparr>a_id = 1, a_group_id = ''org.example'', a_artifact_id = ''lib''\<rparr>]"
    by (simp add: engine_defs example_defs)
  have h1: "distinct (map pair_of (artifacts (snd (InsertIndexes no_faults [lib_example] empty_database))))"
    by (simp add: a1)
  have p1: "(''org.example'', ''lib'') \<in> pair_of ` set (artifacts (snd (InsertIndexes no_faults [lib_example] empty_database)))"
    by (simp add: a1 pair_of_def)
  show ?thesis
    using h r h1 p1
      artifacts_pair_unique [OF h, of "''org.example''" "''lib''"
        "[(no_faults, [lib_example, lib_example, lib_other]), (commit_fails, [clash]), (no_faults, [lib_example_2, lib_other])]"]
      artifacts_pair_unique [OF h1, of "''org.example''" "''lib''" "[]" "[lib_example_2, lib_example_2]" no_faults]
    by simp
qed

text \<open>the records of one sha1\<close>

lemma stored_sha1s: "SHA1 ` set (stored db) \<subseteq> i_sha1 ` set (indices db)"
  by (auto simp: stored_def join_indices_artifacts_def to_Index_def)

lemma filter_stored_absent:
  "h \<notin> i_sha1 ` set (indices db) \<Longrightarrow> filter (\<lambda>x. SHA1 x = h) (stored db) = []"
  unfolding filter_empty_conv using stored_sha1s [of db] by (metis imageI subsetD)

lemma filter_new_indexes_seen:
  "h \<in> S \<Longrightarrow> filter (\<lambda>x. SHA1 x = h) (new_indexes S B) = []"
  unfolding filter_empty_conv using new_indexes_fresh by metis

lemma filter_new_indexes_fresh:
  "h \<notin> S \<Longrightarrow> filter (\<lambda>x. SHA1 x = h) (new_indexes S B) =
     (case find (\<lambda>x. SHA1 x = h) B of None \<Rightarrow> [] | Some j \<Rightarrow> [j])"
proof (induction B arbitrary: S)
  case Nil then show ?case by simp
next
  case (Cons x B)
  show ?case
  proof (cases "SHA1 x = h")
    case True
    then show ?thesis using Cons.prems filter_new_indexes_seen [of h "insert h S" B] by simp
  next
    case False
    then show ?thesis using Cons.prems Cons.IH [of S] Cons.IH [of "insert (SHA1 x) S"] by simp
  qed
qed

lemma find_first: "P i \<Longrightarrow> \<forall>x \<in> set pre. \<not> P x \<Longrightarrow> find P (pre @ i # post) = Some i"
  by (induction pre) auto

lemma filter_key_one:
  "distinct (map f xs) \<Longrightarrow> k \<in> f ` set xs \<Longrightarrow> length (filter (\<lambda>x. f x = k) xs) = 1"
proof -
  assume d: "distinct (map f xs)" and "k \<in> f ` set xs"
  then obtain r where "r \<in> set xs" "f r = k" by auto
  then show ?thesis using filter_distinct_key [OF d, of r] by auto
qed

lemma query_by_sha1_kept:
  assumes "consistent db" and "h \<in> i_sha1 ` set (indices db)"
  shows "query_by_sha1 h (snd (InsertIndexes f B db)) = query_by_sha1 h db"
  using InsertIndexes_cases [of f B db] assms
  by (auto simp: query_by_sha1_stored stored_apply_batch filter_new_indexes_seen)

lemma rows_of_sha1_kept:
  assumes "h \<in> i_sha1 ` set (indices db)"
  shows "filter (\<lambda>r. i_sha1 r = h) (indices (snd (InsertIndexes f B db))) =
         filter (\<lambda>r. i_sha1 r = h) (indices db)"
proof -
  have "filter (\<lambda>r. i_sha1 r = h) (indices (apply_batch B db)) = filter (\<lambda>r. i_sha1 r = h) (indices db)"
    unfolding apply_batch_def
    using fold_iidn_filter_present [of h "insert_or_ignore_artifacts (map (\<lambda>x. (GroupID x, ArtifactID x)) B) db" B] assms
    by simp
  then show ?thesis using InsertIndexes_cases [of f B db] by auto
qed

lemma query_by_sha1_first:
  assumes "consistent db" and "h \<notin> i_sha1 ` set (indices db)" and "find (\<lambda>x. SHA1 x = h) B = Some j"
  shows "query_by_sha1 h (apply_batch B db) = [j]"
  using assms
  by (simp add: query_by_sha1_stored stored_apply_batch filter_stored_absent filter_new_indexes_fresh)

lemma SelectIndexBySha1_query:
  "hex_DecodeString s = Inr h \<Longrightarrow>
   SelectIndexBySha1 None s db = (case query_by_sha1 h db of [] \<Rightarrow> Inr zero_Index | x # _ \<Rightarrow> Inr x, db)"
  by (simp add: SelectIndexBySha1_def QueryRow_Scan_def split: list.splits)

text \<open>
  C1. Let the database obey the schema, let the call of \<^verbatim>\<open>InsertIndexes\<close> with batch
  \<open>B1\<close> have returned nil, and let \<open>B1\<close> and \<open>B2\<close> each hold a record with the same sha1.
  Then the call with \<open>B2\<close> returns nil when the engine fails nothing: the duplicate is no
  error. After \<open>B1\<close> there is exactly one row with that sha1, and after the call with
  \<open>B2\<close>, whatever the engine does to it, the rows with that sha1 are the same and
  \<^verbatim>\<open>SelectIndexBySha1\<close> answers the same: the row is not overwritten. The row is the one
  \<open>B1\<close> wrote, that is the first record of \<open>B1\<close> with that sha1, when no row carried the
  sha1 before \<open>B1\<close> was loaded.
\<close>

theorem first_writer_wins:
  assumes "consistent db"
      and "InsertIndexes f1 B1 db = (None, db1)"
      and "i1 \<in> set B1" and "i2 \<in> set B2" and "SHA1 i2 = SHA1 i1"
  shows "fst (InsertIndexes no_faults B2 db1) = None \<and>
         length (filter (\<lambda>r. i_sha1 r = SHA1 i1) (indices db1)) = 1 \<and>
         filter (\<lambda>r. i_sha1 r = SHA1 i1) (indices (snd (InsertIndexes f2 B2 db1))) =
           filter (\<lambda>r. i_sha1 r = SHA1 i1) (indices db1) \<and>
         fst (SelectIndexBySha1 q (hex_EncodeToString (SHA1 i1)) (snd (InsertIndexes f2 B2 db1))) =
           fst (SelectIndexBySha1 q (hex_EncodeToString (SHA1 i1)) db1) \<and>
         (SHA1 i1 \<notin> i_sha1 ` set (indices db) \<longrightarrow>
            (\<exists>j. find (\<lambda>x. SHA1 x = SHA1 i1) B1 = Some j \<and>
                 fst (SelectIndexBySha1 None (hex_EncodeToString (SHA1 i1)) (snd (InsertIndexes f2 B2 db1))) = Inr j))"
proof -
  let ?h = "SHA1 i1"
  let ?db2 = "snd (InsertIndexes f2 B2 db1)"
  have db1: "db1 = apply_batch B1 db" using assms(2) by (rule InsertIndexes_None)
  have c1: "consistent db1" unfolding db1 using assms(1) by (rule consistent_apply_batch)
  have present: "?h \<in> i_sha1 ` set (indices db1)"
    unfolding db1 using apply_batch_sha1s [of B1 db] assms(3) by auto
  have one: "length (filter (\<lambda>r. i_sha1 r = ?h) (indices db1)) = 1"
    using c1 present by (simp add: consistent_def filter_key_one)
  have rows: "filter (\<lambda>r. i_sha1 r = ?h) (indices ?db2) = filter (\<lambda>r. i_sha1 r = ?h) (indices db1)"
    using present by (rule rows_of_sha1_kept)
  have q: "query_by_sha1 ?h ?db2 = query_by_sha1 ?h db1"
    using c1 present by (rule query_by_sha1_kept)
  have sel: "fst (SelectIndexBySha1 q (hex_EncodeToString ?h) ?db2) =
             fst (SelectIndexBySha1 q (hex_EncodeToString ?h) db1)"
    by (simp add: SelectIndexBySha1_def hex_roundtrip q split: sum.splits)
  have fresh: "\<exists>j. find (\<lambda>x. SHA1 x = ?h) B1 = Some j \<and>
                 fst (SelectIndexBySha1 None (hex_EncodeToString ?h) ?db2) = Inr j"
    if f: "?h \<notin> i_sha1 ` set (indices db)"
  proof -
    obtain j where j: "find (\<lambda>x. SHA1 x = ?h) B1 = Some j"
      using assms(3) by (cases "find (\<lambda>x. SHA1 x = ?h) B1") (auto simp: find_None_iff)
    have "query_by_sha1 ?h db1 = [j]"
      unfolding db1 using assms(1) f j by (rule query_by_sha1_first)
    then have "fst (SelectIndexBySha1 None (hex_EncodeToString ?h) ?db2) = Inr j"
      by (simp add: SelectIndexBySha1_query [OF hex_roundtrip] q)
    then show ?thesis using j by blast
  qed
  show ?thesis
    using one rows sel fresh by (simp add: InsertIndexes_no_faults)
qed

theorem first_writer_wins_witness:
  "consistent empty_database \<and>
   InsertIndexes no_faults [lib_example, lib_other] empty_database =
     (None, snd (InsertIndexes no_faults [lib_example, lib_other] empty_database)) \<and>
   lib_example \<in> set [lib_example, lib_other] \<and> clash \<in> set [clash, lib_example_2] \<and>
   SHA1 clash = SHA1 lib_example \<and>
   SHA1 lib_example \<notin> i_sha1 ` set (indices empty_database) \<and>
   fst (InsertIndexes no_faults [clash, lib_example_2]
         (snd (InsertIndexes no_faults [lib_example, lib_other] empty_database))) = None \<and>
   fst (SelectIndexBySha1 None ''0102030405060708090a0b0c0d0e0f1011121314''
         (snd (InsertIndexes no_faults [clash, lib_example_2]
           (snd (InsertIndexes no_faults [lib_example, lib_other] empty_database))))) = Inr lib_example"
proof -
  have c: "consistent empty_database" by (rule consistent_empty)
  have b1: "InsertIndexes no_faults [lib_example, lib_other] empty_database =
     (None, snd (InsertIndexes no_faults [lib_example, lib_other] empty_database))"
    by (simp add: InsertIndexes_no_faults)
  have m1: "lib_example \<in> set [lib_example, lib_other]" and m2: "clash \<in> set [clash, lib_example_2]"
    by simp_all
  have s: "SHA1 clash = SHA1 lib_example" by (simp add: example_defs)
  have f: "SHA1 lib_example \<notin> i_sha1 ` set (indices empty_database)" by (simp add: empty_database_def)
  have e: "hex_EncodeToString (SHA1 lib_example) = ''0102030405060708090a0b0c0d0e0f1011121314''"
    by (simp add: example_defs hextable_def)
  have fd: "find (\<lambda>x. SHA1 x = SHA1 lib_example) [lib_example, lib_other] = Some lib_example"
    by simp
  note T = first_writer_wins [OF c b1 m1 m2 s, of no_faults None]
  have n: "fst (InsertIndexes no_faults [clash, lib_example_2]
         (snd (InsertIndexes no_faults [lib_example, lib_other] empty_database))) = None"
    using T by (rule conjunct1)
  have "\<exists>j. find (\<lambda>x. SHA1 x = SHA1 lib_example) [lib_example, lib_other] = Some j \<and>
          fst (SelectIndexBySha1 None (hex_EncodeToString (SHA1 lib_example))
                (snd (InsertIndexes no_faults [clash, lib_example_2]
                  (snd (InsertIndexes no_faults [lib_example, lib_other] empty_database))))) = Inr j"
    using T f by blast
  then have r: "fst (SelectIndexBySha1 None ''0102030405060708090a0b0c0d0e0f1011121314''
         (snd (InsertIndexes no_faults [clash, lib_example_2]
           (snd (InsertIndexes no_faults [lib_example, lib_other] empty_database))))) = Inr lib_example"
    unfolding e fd by simp
  show ?thesis
    using c b1 s f n r by simp
qed

text \<open>the records of one pair\<close>

lemma new_indexes_split:
  assumes "SHA1 i \<notin> S" and "SHA1 i \<notin> SHA1 ` set pre"
  shows "\<exists>post'. new_indexes S (pre @ i # post) = new_indexes S pre @ i # post'"
  using assms by (simp add: new_indexes_append)

lemma SelectIndexByArtifactIDAndGroupID_query:
  "SelectIndexByArtifactIDAndGroupID None a g db =
     (case query_by_artifact_group g a db of [] \<Rightarrow> Inr zero_Index | x # _ \<Rightarrow> Inr x, db)"
  by (simp add: SelectIndexByArtifactIDAndGroupID_def QueryRow_Scan_def split: list.splits)

text \<open>
  C9, amended. Let the database obey the schema and hold no row with the sha1 of a record,
  and let a call of \<^verbatim>\<open>InsertIndexes\<close> with a batch in which no earlier record carries that
  sha1 have returned nil. Then \<^verbatim>\<open>SelectIndexBySha1\<close> with the hash in hexadecimal returns
  the record, with all its fields. \<^verbatim>\<open>SelectIndexByArtifactIDAndGroupID\<close> with the pair of
  the record returns, without error, a stored record of that pair; it is the inserted record
  when no record of the pair was stored before it (none in the database, none earlier in the
  batch).
\<close>

theorem insert_then_select:
  fixes i :: Index
  assumes "consistent db"
      and "SHA1 i \<notin> i_sha1 ` set (indices db)"
      and "indexes = pre @ i # post"
      and "SHA1 i \<notin> SHA1 ` set pre"
      and "InsertIndexes f indexes db = (None, db')"
  shows "fst (SelectIndexBySha1 None (hex_EncodeToString (SHA1 i)) db') = Inr i \<and>
         (\<exists>x. fst (SelectIndexByArtifactIDAndGroupID None (ArtifactID i) (GroupID i) db') = Inr x \<and>
              x \<in> set (stored db') \<and> GroupID x = GroupID i \<and> ArtifactID x = ArtifactID i) \<and>
         (query_by_artifact_group (GroupID i) (ArtifactID i) db = [] \<and>
          (GroupID i, ArtifactID i) \<notin> (\<lambda>x. (GroupID x, ArtifactID x)) ` set pre \<longrightarrow>
            fst (SelectIndexByArtifactIDAndGroupID None (ArtifactID i) (GroupID i) db') = Inr i)"
proof -
  let ?S = "i_sha1 ` set (indices db)"
  let ?P = "\<lambda>x. GroupID x = GroupID i \<and> ArtifactID x = ArtifactID i"
  have db': "db' = apply_batch indexes db" using assms(5) by (rule InsertIndexes_None)
  obtain post' where n: "new_indexes ?S indexes = new_indexes ?S pre @ i # post'"
    using new_indexes_split [OF assms(2,4)] assms(3) by blast
  have st: "stored db' = stored db @ new_indexes ?S pre @ i # post'"
    unfolding db' by (simp add: stored_apply_batch [OF assms(1)] n)
  have "\<forall>x \<in> set pre. \<not> SHA1 x = SHA1 i"
    using assms(4) by (metis imageI)
  then have "find (\<lambda>x. SHA1 x = SHA1 i) indexes = Some i"
    unfolding assms(3) by (intro find_first) simp_all
  then have "query_by_sha1 (SHA1 i) db' = [i]"
    unfolding db' using assms(1,2) by (intro query_by_sha1_first)
  then have 1: "fst (SelectIndexBySha1 None (hex_EncodeToString (SHA1 i)) db') = Inr i"
    by (simp add: SelectIndexBySha1_query [OF hex_roundtrip])
  have q: "query_by_artifact_group (GroupID i) (ArtifactID i) db' =
           filter ?P (stored db) @ filter ?P (new_indexes ?S pre) @ i # filter ?P post'"
    by (simp add: query_by_artifact_group_stored st)
  then have "query_by_artifact_group (GroupID i) (ArtifactID i) db' \<noteq> []"
    by simp
  then obtain x rest where x: "query_by_artifact_group (GroupID i) (ArtifactID i) db' = x # rest"
    unfolding neq_Nil_conv by blast
  then have "x \<in> set (filter ?P (stored db'))"
    by (simp add: query_by_artifact_group_stored)
  then have 2: "\<exists>x. fst (SelectIndexByArtifactIDAndGroupID None (ArtifactID i) (GroupID i) db') = Inr x \<and>
              x \<in> set (stored db') \<and> GroupID x = GroupID i \<and> ArtifactID x = ArtifactID i"
    using x by (simp add: SelectIndexByArtifactIDAndGroupID_query)
  have 3: "fst (SelectIndexByArtifactIDAndGroupID None (ArtifactID i) (GroupID i) db') = Inr i"
    if e: "query_by_artifact_group (GroupID i) (ArtifactID i) db = []"
      and p: "(GroupID i, ArtifactID i) \<notin> (\<lambda>x. (GroupID x, ArtifactID x)) ` set pre"
  proof -
    have "filter ?P (stored db) = []"
      using e by (simp add: query_by_artifact_group_stored)
    moreover have "filter ?P (new_indexes ?S pre) = []"
      unfolding filter_empty_conv
    proof (intro ballI notI)
      fix x assume "x \<in> set (new_indexes ?S pre)" and "?P x"
      then have m: "x \<in> set pre" and eq: "(GroupID i, ArtifactID i) = (GroupID x, ArtifactID x)"
        using new_indexes_subset [of ?S pre] by auto
      have "(GroupID i, ArtifactID i) \<in> (\<lambda>x. (GroupID x, ArtifactID x)) ` set pre"
        using eq m by (rule image_eqI)
      with p show False by simp
    qed
    ultimately have "query_by_artifact_group (GroupID i) (ArtifactID i) db' = i # filter ?P post'"
      unfolding q by simp
    then show ?thesis
      by (simp add: SelectIndexByArtifactIDAndGroupID_query)
  qed
  have third: "query_by_artifact_group (GroupID i) (ArtifactID i) db = [] \<and>
          (GroupID i, ArtifactID i) \<notin> (\<lambda>x. (GroupID x, ArtifactID x)) ` set pre \<longrightarrow>
            fst (SelectIndexByArtifactIDAndGroupID None (ArtifactID i) (GroupID i) db') = Inr i"
  proof (intro impI, elim conjE)
    assume "query_by_artifact_group (GroupID i) (ArtifactID i) db = []"
       and "(GroupID i, ArtifactID i) \<notin> (\<lambda>x. (GroupID x, ArtifactID x)) ` set pre"
    then show "fst (SelectIndexByArtifactIDAndGroupID None (ArtifactID i) (GroupID i) db') = Inr i"
      by (rule 3)
  qed
  show ?thesis by (intro conjI) (fact 1, fact 2, fact third)
qed

theorem insert_then_select_witness:
  "consistent empty_database \<and>
   SHA1 lib_example \<notin> i_sha1 ` set (indices empty_database) \<and>
   [lib_other, lib_example, lib_example_2] = [lib_other] @ lib_example # [lib_example_2] \<and>
   SHA1 lib_example \<notin> SHA1 ` set [lib_other] \<and>
   InsertIndexes no_faults [lib_other, lib_example, lib_example_2] empty_database =
     (None, snd (InsertIndexes no_faults [lib_other, lib_example, lib_example_2] empty_database)) \<and>
   query_by_artifact_group (GroupID lib_example) (ArtifactID lib_example) empty_database = [] \<and>
   (GroupID lib_example, ArtifactID lib_example) \<notin> (\<lambda>x. (GroupID x, ArtifactID x)) ` set [lib_other] \<and>
   fst (SelectIndexBySha1 None ''0102030405060708090a0b0c0d0e0f1011121314''
         (snd (InsertIndexes no_faults [lib_other, lib_example, lib_example_2] empty_database))) = Inr lib_example \<and>
   fst (SelectIndexByArtifactIDAndGroupID None ''lib'' ''org.example''
         (snd (InsertIndexes no_faults [lib_other, lib_example, lib_example_2] empty_database))) = Inr lib_example"
proof -
  have c: "consistent empty_database" by (rule consistent_empty)
  have f: "SHA1 lib_example \<notin> i_sha1 ` set (indices empty_database)" by (simp add: empty_database_def)
  have d: "[lib_other, lib_example, lib_example_2] = [lib_other] @ lib_example # [lib_example_2]" by simp
  have p: "SHA1 lib_example \<notin> SHA1 ` set [lib_other]" by (simp add: example_defs)
  have b: "InsertIndexes no_faults [lib_other, lib_example, lib_example_2] empty_database =
     (None, snd (InsertIndexes no_faults [lib_other, lib_example, lib_example_2] empty_database))"
    by (simp add: InsertIndexes_no_faults)
  have q: "query_by_artifact_group (GroupID lib_example) (ArtifactID lib_example) empty_database = []"
    by (simp add: engine_defs)
  have n: "(GroupID lib_example, ArtifactID lib_example) \<notin> (\<lambda>x. (GroupID x, ArtifactID x)) ` set [lib_other]"
    by (simp add: example_defs)
  have e: "hex_EncodeToString (SHA1 lib_example) = ''0102030405060708090a0b0c0d0e0f1011121314''"
    by (simp add: example_defs hextable_def)
  have g: "GroupID lib_example = ''org.example''" "ArtifactID lib_example = ''lib''"
    by (simp_all add: example_defs)
  note T = insert_then_select [OF c f d p b]
  have 1: "fst (SelectIndexBySha1 None ''0102030405060708090a0b0c0d0e0f1011121314''
         (snd (InsertIndexes no_faults [lib_other, lib_example, lib_example_2] empty_database))) = Inr lib_example"
    using T [THEN conjunct1] unfolding e .
  have 2: "fst (SelectIndexByArtifactIDAndGroupID None ''lib'' ''org.example''
         (snd (InsertIndexes no_faults [lib_other, lib_example, lib_example_2] empty_database))) = Inr lib_example"
    using T [THEN conjunct2, THEN conjunct2] q n unfolding g by blast
  show ?thesis using c f p b q n 1 2 by simp
qed

text \<open>
  C9 as stated fails. With version 1.0 of \<open>org.example:lib\<close> stored, version 2.0 is
  inserted under a new sha1, and the lookup by the pair still returns version 1.0. And a
  record that comes second in its batch to another with the same sha1 is not stored: the
  lookup by its hash returns the other, of another group.
\<close>

theorem select_by_pair_counterexample:
  "consistent (snd (InsertIndexes no_faults [lib_example] empty_database)) \<and>
   SHA1 lib_example_2 \<notin> i_sha1 ` set (indices (snd (InsertIndexes no_faults [lib_example] empty_database))) \<and>
   fst (InsertIndexes no_faults [lib_example_2] (snd (InsertIndexes no_faults [lib_example] empty_database))) = None \<and>
   fst (SelectIndexByArtifactIDAndGroupID None (ArtifactID lib_example_2) (GroupID lib_example_2)
         (snd (InsertIndexes no_faults [lib_example_2]
           (snd (InsertIndexes no_faults [lib_example] empty_database))))) = Inr lib_example \<and>
   lib_example \<noteq> lib_example_2 \<and> Version lib_example \<noteq> Version lib_example_2 \<and>
   SHA1 lib_example \<notin> i_sha1 ` set (indices empty_database) \<and>
   fst (InsertIndexes no_faults [clash, lib_example] empty_database) = None \<and>
   fst (SelectIndexBySha1 None (hex_EncodeToString (SHA1 lib_example))
         (snd (InsertIndexes no_faults [clash, lib_example] empty_database))) = Inr clash \<and>
   GroupID clash \<noteq> GroupID lib_example"
proof -
  have "consistent (snd (InsertIndexes no_faults [lib_example] empty_database))"
    by (rule consistent_InsertIndexes [OF consistent_empty])
  moreover have "SHA1 lib_example_2 \<notin> i_sha1 ` set (indices (snd (InsertIndexes no_faults [lib_example] empty_database)))"
    by (simp add: engine_defs example_defs)
  moreover have "fst (InsertIndexes no_faults [lib_example_2] (snd (InsertIndexes no_faults [lib_example] empty_database))) = None"
    by (simp add: InsertIndexes_no_faults)
  moreover have "fst (SelectIndexByArtifactIDAndGroupID None (ArtifactID lib_example_2) (GroupID lib_example_2)
         (snd (InsertIndexes no_faults [lib_example_2]
           (snd (InsertIndexes no_faults [lib_example] empty_database))))) = Inr lib_example"
    by (simp add: engine_defs example_defs)
  moreover have "lib_example \<noteq> lib_example_2" "Version lib_example \<noteq> Version lib_example_2"
    "GroupID clash \<noteq> GroupID lib_example"
    by (simp_all add: example_defs)
  moreover have "SHA1 lib_example \<notin> i_sha1 ` set (indices empty_database)"
    by (simp add: empty_database_def)
  moreover have "fst (InsertIndexes no_faults [clash, lib_example] empty_database) = None"
    by (simp add: InsertIndexes_no_faults)
  moreover have "fst (SelectIndexBySha1 None (hex_EncodeToString (SHA1 lib_example))
         (snd (InsertIndexes no_faults [clash, lib_example] empty_database))) = Inr clash"
    by (simp add: engine_defs example_defs)
  ultimately show ?thesis by simp
qed

text \<open>hexadecimal digits\<close>

lemma reverseHexTable_digit: "reverseHexTable c \<le> 0x0f \<longleftrightarrow> is_hex_digit c"
proof (cases c)
  case (Char b0 b1 b2 b3 b4 b5 b6 b7)
  show ?thesis
    unfolding Char
    by (cases b0; cases b1; cases b2; cases b3; cases b4; cases b5; cases b6; cases b7;
        simp add: reverseHexTable_def is_hex_digit_def)
qed

lemma hex_DecodeString_valid: "(\<exists>b. hex_DecodeString s = Inr b) \<longleftrightarrow> valid_hex s"
proof (induction s rule: hex_DecodeString.induct)
  case 1
  then show ?case by (simp add: valid_hex_def)
next
  case (2 p)
  then show ?case by (simp add: valid_hex_def)
next
  case (3 p q src)
  show ?case
  proof (cases "is_hex_digit p \<and> is_hex_digit q")
    case True
    then have n: "\<not> reverseHexTable p > 0x0f" "\<not> reverseHexTable q > 0x0f"
      by (simp_all add: not_less reverseHexTable_digit)
    have IH: "(\<exists>b. hex_DecodeString src = Inr b) \<longleftrightarrow> valid_hex src"
      using "3.IH" [OF refl refl n] .
    show ?thesis
      using IH True n by (auto simp: valid_hex_def Let_def split: sum.splits)
  next
    case False
    then have "reverseHexTable p > 0x0f \<or> reverseHexTable q > 0x0f"
      using reverseHexTable_digit [of p] reverseHexTable_digit [of q] by (auto simp: not_le)
    then show ?thesis
      using False by (auto simp: valid_hex_def Let_def)
  qed
qed

text \<open>
  C6. \<^verbatim>\<open>SelectIndexBySha1\<close> on a string that is no valid hexadecimal encoding returns the
  decode error, wrapped, and the database as it was, whatever the engine would do: no statement
  is run. On a valid encoding of a hash that no row of \<^verbatim>\<open>indices\<close> carries, it returns the
  zero value of \<^verbatim>\<open>Index\<close> and no error when the engine runs the query, and the database as
  it was.
\<close>

theorem SelectIndexBySha1_decode_and_absent:
  "(\<not> valid_hex sha1 \<longrightarrow>
      (\<exists>err. hex_DecodeString sha1 = Inl err \<and>
             SelectIndexBySha1 f sha1 db = (Inl (Errorf ''sha1 decode error'' err), db))) \<and>
   (valid_hex sha1 \<longrightarrow>
      (\<exists>sha1b. hex_DecodeString sha1 = Inr sha1b \<and>
         (sha1b \<notin> i_sha1 ` set (indices db) \<longrightarrow> SelectIndexBySha1 None sha1 db = (Inr zero_Index, db))))"
proof (intro conjI impI)
  assume "\<not> valid_hex sha1"
  then obtain err where "hex_DecodeString sha1 = Inl err"
    using hex_DecodeString_valid [of sha1] by (cases "hex_DecodeString sha1") auto
  then show "\<exists>err. hex_DecodeString sha1 = Inl err \<and>
             SelectIndexBySha1 f sha1 db = (Inl (Errorf ''sha1 decode error'' err), db)"
    by (simp add: SelectIndexBySha1_def)
next
  assume "valid_hex sha1"
  then obtain sha1b where d: "hex_DecodeString sha1 = Inr sha1b"
    using hex_DecodeString_valid [of sha1] by blast
  have "SelectIndexBySha1 None sha1 db = (Inr zero_Index, db)" if "sha1b \<notin> i_sha1 ` set (indices db)"
  proof -
    have "query_by_sha1 sha1b db = []"
      using that by (simp add: query_by_sha1_stored filter_stored_absent)
    then show ?thesis by (simp add: SelectIndexBySha1_query [OF d])
  qed
  then show "\<exists>sha1b. hex_DecodeString sha1 = Inr sha1b \<and>
         (sha1b \<notin> i_sha1 ` set (indices db) \<longrightarrow> SelectIndexBySha1 None sha1 db = (Inr zero_Index, db))"
    using d by blast
qed

theorem SelectIndexBySha1_decode_and_absent_witness:
  "\<not> valid_hex ''0102zz'' \<and>
   SelectIndexBySha1 None ''0102zz'' (snd (InsertIndexes no_faults [lib_example] empty_database)) =
     (Inl (Errorf ''sha1 decode error'' (InvalidByteError CHR ''z'')),
      snd (InsertIndexes no_faults [lib_example] empty_database)) \<and>
   \<not> valid_hex ''abc'' \<and>
   fst (SelectIndexBySha1 None ''abc'' empty_database) = Inl (Errorf ''sha1 decode error'' ErrLength) \<and>
   valid_hex ''A1a2a3a4a5a6a7a8a9aaabacadaeafb0b1b2b3b4'' \<and>
   hex_DecodeString ''A1a2a3a4a5a6a7a8a9aaabacadaeafb0b1b2b3b4'' = Inr sha_b \<and>
   sha_b \<notin> i_sha1 ` set (indices (snd (InsertIndexes no_faults [lib_example] empty_database))) \<and>
   SelectIndexBySha1 None ''A1a2a3a4a5a6a7a8a9aaabacadaeafb0b1b2b3b4''
       (snd (InsertIndexes no_faults [lib_example] empty_database)) =
     (Inr zero_Index, snd (InsertIndexes no_faults [lib_example] empty_database))"
proof -
  let ?db = "snd (InsertIndexes no_faults [lib_example] empty_database)"
  have v1: "\<not> valid_hex ''0102zz''" and v2: "\<not> valid_hex ''abc''"
    and v3: "valid_hex ''A1a2a3a4a5a6a7a8a9aaabacadaeafb0b1b2b3b4''"
    by (simp_all add: valid_hex_def is_hex_digit_def)
  have d1: "hex_DecodeString ''0102zz'' = Inl (InvalidByteError CHR ''z'')"
    and d2: "hex_DecodeString ''abc'' = Inl ErrLength"
    and d3: "hex_DecodeString ''A1a2a3a4a5a6a7a8a9aaabacadaeafb0b1b2b3b4'' = Inr sha_b"
    by (simp_all add: reverseHexTable_def sha_b_def)
  have a: "sha_b \<notin> i_sha1 ` set (indices ?db)"
    by (simp add: engine_defs example_defs)
  note T1 = SelectIndexBySha1_decode_and_absent [of "''0102zz''" None ?db, THEN conjunct1, rule_format, OF v1]
  note T2 = SelectIndexBySha1_decode_and_absent [of "''abc''" None empty_database, THEN conjunct1, rule_format, OF v2]
  note T3 = SelectIndexBySha1_decode_and_absent [of "''A1a2a3a4a5a6a7a8a9aaabacadaeafb0b1b2b3b4''" None ?db,
      THEN conjunct2, rule_format, OF v3]
  have r1: "SelectIndexBySha1 None ''0102zz'' ?db =
     (Inl (Errorf ''sha1 decode error'' (InvalidByteError CHR ''z'')), ?db)"
    using T1 unfolding d1 by blast
  have r2: "fst (SelectIndexBySha1 None ''abc'' empty_database) = Inl (Errorf ''sha1 decode error'' ErrLength)"
    using T2 unfolding d2 by auto
  have r3: "SelectIndexBySha1 None ''A1a2a3a4a5a6a7a8a9aaabacadaeafb0b1b2b3b4'' ?db = (Inr zero_Index, ?db)"
    using T3 a unfolding d3 by blast
  show ?thesis using v1 v2 v3 d3 a r1 r2 r3 by simp
qed

text \<open>the rows of the queries\<close>

lemma set_join:
  "set (join_indices_artifacts db) =
     {(i, a). i \<in> set (indices db) \<and> a \<in> set (artifacts db) \<and> i_artifact_id i = Some (a_id a)}"
  by (auto simp: join_indices_artifacts_def)






text \<open>
  The result is a list in which a record is repeated when its artifact owns several rows of
  the version and archive type asked for: the subquery yields the artifact once for each.
\<close>

lemma SelectIndexesByArtifactIDAndFileType_repeats:
  "fst (SelectIndexesByArtifactIDAndFileType None ''lib'' ''1.0'' ''jar''
          (snd (InsertIndexes no_faults [lib_example, lib_example\<lparr>SHA1 := sha_c\<rparr>] empty_database))) =
     Inr [lib_example, lib_example, lib_example\<lparr>SHA1 := sha_c\<rparr>, lib_example\<lparr>SHA1 := sha_c\<rparr>]"
  by (simp add: engine_defs example_defs)

text \<open>
  C10. When two index rows belong to the artifact of a pair \<open>(group_id, artifact_id)\<close>,
  \<^verbatim>\<open>SelectIndexByArtifactIDAndGroupID\<close> returns, when the engine runs the query, no error
  and one record: the record of an index row of an artifact with that pair. Nothing tells
  that there were more.
\<close>

theorem SelectIndexByArtifactIDAndGroupID_one:
  assumes "i1 \<in> set (indices db)" and "i2 \<in> set (indices db)" and "i1 \<noteq> i2"
      and "a \<in> set (artifacts db)" and "a_group_id a = groupID" and "a_artifact_id a = artifactID"
      and "i_artifact_id i1 = Some (a_id a)" and "i_artifact_id i2 = Some (a_id a)"
  shows "\<exists>x. SelectIndexByArtifactIDAndGroupID None artifactID groupID db = (Inr x, db) \<and>
             x \<in> {to_Index (i, a') | i a'.
                    i \<in> set (indices db) \<and> a' \<in> set (artifacts db) \<and> i_artifact_id i = Some (a_id a') \<and>
                    a_group_id a' = groupID \<and> a_artifact_id a' = artifactID}"
proof -
  let ?q = "query_by_artifact_group groupID artifactID db"
  have s: "set ?q = {to_Index (i, a') | i a'.
                    i \<in> set (indices db) \<and> a' \<in> set (artifacts db) \<and> i_artifact_id i = Some (a_id a') \<and>
                    a_group_id a' = groupID \<and> a_artifact_id a' = artifactID}"
    unfolding query_by_artifact_group_def set_map set_filter set_join by auto
  have "to_Index (i1, a) \<in> set ?q"
    unfolding s using assms by blast
  then have "?q \<noteq> []" by auto
  then obtain x rest where x: "?q = x # rest"
    unfolding neq_Nil_conv by blast
  then have "x \<in> set ?q" by simp
  then show ?thesis
    unfolding s [symmetric] using x by (simp add: SelectIndexByArtifactIDAndGroupID_query)
qed

theorem SelectIndexByArtifactIDAndGroupID_one_witness:
  "\<lparr>i_artifact_id = Some 1, i_version = ''1.0'', i_sha1 = sha_a, i_archive_type = ''jar''\<rparr>
     \<in> set (indices (snd (InsertIndexes no_faults [lib_example, lib_example_2] empty_database))) \<and>
   \<lparr>i_artifact_id = Some 1, i_version = ''2.0'', i_sha1 = sha_c, i_archive_type = ''jar''\<rparr>
     \<in> set (indices (snd (InsertIndexes no_faults [lib_example, lib_example_2] empty_database))) \<and>
   \<lparr>a_id = 1, a_group_id = ''org.example'', a_artifact_id = ''lib''\<rparr>
     \<in> set (artifacts (snd (InsertIndexes no_faults [lib_example, lib_example_2] empty_database))) \<and>
   SelectIndexByArtifactIDAndGroupID None ''lib'' ''org.example''
       (snd (InsertIndexes no_faults [lib_example, lib_example_2] empty_database)) =
     (Inr lib_example, snd (InsertIndexes no_faults [lib_example, lib_example_2] empty_database))"
proof -
  let ?db = "snd (InsertIndexes no_faults [lib_example, lib_example_2] empty_database)"
  let ?i1 = "\<lparr>i_artifact_id = Some 1, i_version = ''1.0'', i_sha1 = sha_a, i_archive_type = ''jar''\<rparr>"
  let ?i2 = "\<lparr>i_artifact_id = Some 1, i_version = ''2.0'', i_sha1 = sha_c, i_archive_type = ''jar''\<rparr>"
  let ?a = "\<lparr>a_id = 1, a_group_id = ''org.example'', a_artifact_id = ''lib''\<rparr>"
  have m1: "?i1 \<in> set (indices ?db)" and m2: "?i2 \<in> set (indices ?db)" and m3: "?a \<in> set (artifacts ?db)"
    by (simp_all add: engine_defs example_defs)
  have n: "?i1 \<noteq> ?i2" by simp
  obtain x where x: "SelectIndexByArtifactIDAndGroupID None ''lib'' ''org.example'' ?db = (Inr x, ?db)"
    using SelectIndexByArtifactIDAndGroupID_one [OF m1 m2 n m3, of "''org.example''" "''lib''"] by auto
  have "fst (SelectIndexByArtifactIDAndGroupID None ''lib'' ''org.example'' ?db) = Inr lib_example"
    by (simp add: engine_defs example_defs)
  then have "SelectIndexByArtifactIDAndGroupID None ''lib'' ''org.example'' ?db = (Inr lib_example, ?db)"
    using x by simp
  then show ?thesis using m1 m2 m3 by simp
qed

text \<open>the schema\<close>

lemma ExecDDL_Inr: "ExecDDL f stmt db = Inr db' \<Longrightarrow> stmt db = Inr db'"
  by (simp add: ExecDDL_def split: option.splits)

lemma sqlite_create_table_Inr:
  "sqlite_create_table n d db = Inr db' \<Longrightarrow>
     n \<notin> set (object_names db) \<and> set (object_names db') = insert n (set (object_names db))"
  by (auto simp: sqlite_create_table_def object_names_def split: if_splits)

lemma sqlite_create_index_Inr:
  "sqlite_create_index n t d db = Inr db' \<Longrightarrow>
     n \<notin> set (object_names db) \<and> set (object_names db') = insert n (set (object_names db))"
  by (auto simp: sqlite_create_index_def object_names_def split: if_splits)

lemma Sqlite_Init_None:
  assumes "Sqlite_Init fs db = (None, db')"
  shows "set [''artifacts'', ''indices'', ''artifacts_idx'', ''indices_artifact_idx'', ''indices_sha1_idx'']
           \<inter> set (object_names db) = {}"
proof -
  from assms obtain db1 db2 db3 db4 where
    1: "sqlite_create_table ''artifacts''
             ''CREATE TABLE artifacts(id INTEGER PRIMARY KEY, group_id TEXT, artifact_id TEXT)'' db = Inr db1" and
    2: "sqlite_create_table ''indices''
             ''CREATE TABLE indices(artifact_id INTEGER, version TEXT, sha1 BLOB, archive_type TEXT, foreign key (artifact_id) references artifacts(id))'' db1 = Inr db2" and
    3: "sqlite_create_index ''artifacts_idx'' ''artifacts''
             ''CREATE UNIQUE INDEX artifacts_idx ON artifacts(artifact_id, group_id)'' db2 = Inr db3" and
    4: "sqlite_create_index ''indices_artifact_idx'' ''indices''
             ''CREATE INDEX indices_artifact_idx ON indices(artifact_id)'' db3 = Inr db4" and
    5: "sqlite_create_index ''indices_sha1_idx'' ''indices''
             ''CREATE UNIQUE INDEX indices_sha1_idx ON indices(sha1)'' db4 = Inr db'"
    unfolding Sqlite_Init_def
    by (auto split: sum.splits dest!: ExecDDL_Inr)
  note a = sqlite_create_table_Inr [OF 1] sqlite_create_table_Inr [OF 2]
    sqlite_create_index_Inr [OF 3] sqlite_create_index_Inr [OF 4] sqlite_create_index_Inr [OF 5]
  show ?thesis using a by auto
qed

text \<open>
  C7, amended. \<^verbatim>\<open>Sqlite.Init\<close> returns an error, whatever the engine does, when the target
  already holds an object with the name of one of the two tables or three indexes it creates.
  \<^verbatim>\<open>Mysql.Init\<close> creates its tables with \<^verbatim>\<open>IF NOT EXISTS\<close>: on a target that holds
  tables named \<^verbatim>\<open>artifacts\<close> and \<^verbatim>\<open>indices\<close>, of whatever shape, it changes nothing and
  returns nil when the engine fails nothing.
\<close>

theorem Init_on_existing_schema:
  "(name \<in> set [''artifacts'', ''indices'', ''artifacts_idx'', ''indices_artifact_idx'', ''indices_sha1_idx''] \<and>
    name \<in> set (object_names db) \<longrightarrow> (\<exists>err. fst (Sqlite_Init fs db) = Some err)) \<and>
   (''artifacts'' \<in> set (table_names db) \<and> ''indices'' \<in> set (table_names db) \<longrightarrow>
      Mysql_Init fk_ok [] db = (None, db))"
proof (intro conjI impI)
  assume a: "name \<in> set [''artifacts'', ''indices'', ''artifacts_idx'', ''indices_artifact_idx'', ''indices_sha1_idx''] \<and>
    name \<in> set (object_names db)"
  show "\<exists>err. fst (Sqlite_Init fs db) = Some err"
  proof (cases "Sqlite_Init fs db")
    case (Pair r db')
    show ?thesis
    proof (cases r)
      case None
      then show ?thesis using Sqlite_Init_None [of fs db db'] Pair a by blast
    next
      case (Some err)
      then show ?thesis using Pair by simp
    qed
  qed
next
  assume "''artifacts'' \<in> set (table_names db) \<and> ''indices'' \<in> set (table_names db)"
  then show "Mysql_Init fk_ok [] db = (None, db)"
    by (simp add: Mysql_Init_def ExecDDL_def fault_at_def next_fault_def mysql_create_table_if_not_exists_def)
qed

theorem Init_on_existing_schema_witness:
  "''artifacts'' \<in> set [''artifacts'', ''indices'', ''artifacts_idx'', ''indices_artifact_idx'', ''indices_sha1_idx''] \<and>
   ''artifacts'' \<in> set (object_names conflicting_database) \<and>
   fst (Sqlite_Init [] conflicting_database) =
     Some (Errorf ''unable to create 'artifacts' table'' (EngineError ''table artifacts already exists'')) \<and>
   ''artifacts'' \<in> set (table_names conflicting_database) \<and>
   ''indices'' \<in> set (table_names conflicting_database) \<and>
   Mysql_Init (\<lambda>d. False) [] conflicting_database = (None, conflicting_database)"
proof -
  have 1: "''artifacts'' \<in> set [''artifacts'', ''indices'', ''artifacts_idx'', ''indices_artifact_idx'', ''indices_sha1_idx'']"
    by simp
  have 2: "''artifacts'' \<in> set (object_names conflicting_database)"
    by (simp add: object_names_def conflicting_database_def)
  have 3: "''artifacts'' \<in> set (table_names conflicting_database)"
    and 4: "''indices'' \<in> set (table_names conflicting_database)"
    by (simp_all add: table_names_def conflicting_database_def)
  have 5: "fst (Sqlite_Init [] conflicting_database) =
     Some (Errorf ''unable to create 'artifacts' table'' (EngineError ''table artifacts already exists''))"
    by (simp add: init_defs conflicting_database_def)
  show ?thesis
    using 1 2 3 4 5 Init_on_existing_schema [of "''artifacts''" conflicting_database "[]" "\<lambda>d. False"]
    by simp
qed

text \<open>
  C7 as stated fails for MySQL: on tables of a conflicting shape, and on the schema a first
  \<^verbatim>\<open>Init\<close> created, \<^verbatim>\<open>Mysql.Init\<close> returns nil where \<^verbatim>\<open>Sqlite.Init\<close> returns an
  error.
\<close>

theorem Mysql_Init_counterexample:
  "Mysql_Init (\<lambda>d. False) [] conflicting_database = (None, conflicting_database) \<and>
   fst (Sqlite_Init [] conflicting_database) =
     Some (Errorf ''unable to create 'artifacts' table'' (EngineError ''table artifacts already exists'')) \<and>
   fst (Mysql_Init (\<lambda>d. True) [] (snd (Mysql_Init (\<lambda>d. True) [] empty_database))) = None \<and>
   fst (Sqlite_Init [] (snd (Sqlite_Init [] empty_database))) =
     Some (Errorf ''unable to create 'artifacts' table'' (EngineError ''table artifacts already exists''))"
  by (simp add: init_defs conflicting_database_def)

text \<open>
  C3 fails on the code. \<^verbatim>\<open>build\<close> removes \<^verbatim>\<open>/c/trivy-java.db\<close>, the database file
  \<^verbatim>\<open>Reset\<close> computes from the cache directory, and then opens the file that
  \<^verbatim>\<open>--db-path\<close> names: here \<^verbatim>\<open>/c/db/trivy-java.db\<close>, the place \<^verbatim>\<open>db.New\<close> itself
  computes from the directory it is given. The database of the earlier build is still there,
  with its record, \<^verbatim>\<open>Init\<close> fails on the table that exists, and the build ends with the
  error, whatever the builder.
\<close>

theorem build_does_not_wipe_db_path:
  "fst (build fk_ok no_build_faults Build [''c''] sqlite_conf previous_world) =
     Some (Errorf ''db init error''
            (Errorf ''unable to create 'artifacts' table'' (EngineError ''table artifacts already exists''))) \<and>
   files (snd (build fk_ok no_build_faults Build [''c''] sqlite_conf previous_world))
     [''c'', ''db'', ''trivy-java.db''] = Some (File previous_database) \<and>
   stored previous_database = [lib_example]"
proof -
  have p: "previous_database =
    \<lparr>catalog = catalog (snd (Sqlite_Init [] empty_database)),
     artifacts = [\<lparr>a_id = 1, a_group_id = ''org.example'', a_artifact_id = ''lib''\<rparr>],
     indices = [\<lparr>i_artifact_id = Some 1, i_version = ''1.0'', i_sha1 = sha_a, i_archive_type = ''jar''\<rparr>]\<rparr>"
    by (simp add: previous_database_def engine_defs init_defs example_defs)
  have i: "Sqlite_Init [] previous_database =
     (Some (Errorf ''unable to create 'artifacts' table'' (EngineError ''table artifacts already exists'')),
      previous_database)"
    unfolding p by (simp add: init_defs)
  have s: "stored previous_database = [lib_example]"
    unfolding p by (simp add: stored_def engine_defs example_defs)
  have b: "fst (build fk_ok no_build_faults Build [''c''] sqlite_conf previous_world) =
     Some (Errorf ''db init error''
            (Errorf ''unable to create 'artifacts' table'' (EngineError ''table artifacts already exists'')))"
    by (simp add: build_defs previous_world_def sqlite_conf_def i)
  have f: "files (snd (build fk_ok no_build_faults Build [''c''] sqlite_conf previous_world))
     [''c'', ''db'', ''trivy-java.db''] = Some (File previous_database)"
    by (simp add: build_defs previous_world_def sqlite_conf_def i)
  show ?thesis using b f s by simp
qed

end
